theory Spec2Isabelle
  imports
    Complex_Main
    "HOL-Library.Multiset"
    "HOL-Library.Product_Lexorder"
    "HOL-Library.List_Lexorder"
    "HOL-Library.Char_ord"
    "HOL-Library.Sublist"
begin

section \<open>Storage rows and the ordering keys of the storage engine\<close>

text \<open>
  The relational engine is an external collaborator. A table is the list of its rows in
  physical order. An \<open>ORDER BY\<close> is a stable sort of the rows by a key: rows with equal
  keys come back in physical order, which is arbitrary, and every theorem below
  quantifies over all tables, hence over every order the engine may give to ties.
  Numeric columns (\<open>decimal\<close>, \<open>double precision\<close>) are rationals.
\<close>

text \<open>A row of \<open>food_scores\<close>, with the columns the search route selects.\<close>

record food_score =
  fs_restaurantId :: int
  fs_foodName :: string
  fs_score :: "rat option"
  fs_reviewCount :: int

text \<open>\<open>ORDER BY c DESC\<close>: the largest value first; the engine puts NULL first.\<close>

definition desc_key :: "rat option \<Rightarrow> nat \<times> rat" where
  "desc_key v = (case v of None \<Rightarrow> (0, 0) | Some x \<Rightarrow> (1, - x))"

text \<open>\<open>ORDER BY c DESC NULLS LAST\<close>.\<close>

definition desc_nulls_last_key :: "rat option \<Rightarrow> nat \<times> rat" where
  "desc_nulls_last_key v = (case v of None \<Rightarrow> (1, 0) | Some x \<Rightarrow> (0, - x))"

text \<open>\<open>ORDER BY c ASC\<close>: the smallest value first; the engine puts NULL last.\<close>

definition asc_key :: "rat option \<Rightarrow> nat \<times> rat" where
  "asc_key v = (case v of None \<Rightarrow> (1, 0) | Some x \<Rightarrow> (0, x))"

section \<open>The best dishes of each venue of a page\<close>

text \<open>
  The batched query of the search route:
  \<^verbatim>\<open>select restaurantId, foodName, score, reviewCount from food_scores
  where restaurant_id IN (ids) AND score IS NOT NULL order by score desc\<close>
\<close>

definition topDishesResult :: "food_score list \<Rightarrow> int list \<Rightarrow> food_score list" where
  "topDishesResult foodScores restaurantIds =
     sort_key (\<lambda>d. desc_key (fs_score d))
       (filter (\<lambda>d. fs_restaurantId d \<in> set restaurantIds \<and> fs_score d \<noteq> None) foodScores)"

text \<open>An element of \<open>topDishes\<close>: \<open>{foodName, score, reviewCount}\<close>.\<close>

record top_dish =
  td_foodName :: string
  td_score :: "rat option"
  td_reviewCount :: int

definition toTopDish :: "food_score \<Rightarrow> top_dish" where
  "toTopDish dish =
     \<lparr>td_foodName = fs_foodName dish, td_score = fs_score dish,
      td_reviewCount = fs_reviewCount dish\<rparr>"

text \<open>\<open>dishMap.get(id) ?? []\<close>\<close>

definition getOrEmpty :: "(int \<rightharpoonup> top_dish list) \<Rightarrow> int \<Rightarrow> top_dish list" where
  "getOrEmpty dishMap k = (case dishMap k of None \<Rightarrow> [] | Some existing \<Rightarrow> existing)"

text \<open>
  The loop \<open>for (const dish of topDishesResult)\<close>: a venue's list takes a row while it
  holds fewer than three.
\<close>

fun groupTopDishes :: "food_score list \<Rightarrow> (int \<rightharpoonup> top_dish list) \<Rightarrow> (int \<rightharpoonup> top_dish list)" where
  "groupTopDishes [] dishMap = dishMap"
| "groupTopDishes (dish # rest) dishMap =
     (let existing = getOrEmpty dishMap (fs_restaurantId dish) in
      if length existing < 3
      then groupTopDishes rest (dishMap(fs_restaurantId dish \<mapsto> existing @ [toTopDish dish]))
      else groupTopDishes rest dishMap)"

text \<open>
  The map the route builds for the venue ids of the current page; no query is issued for
  an empty page.
\<close>

definition buildDishMap :: "food_score list \<Rightarrow> int list \<Rightarrow> (int \<rightharpoonup> top_dish list)" where
  "buildDishMap foodScores restaurantIds =
     (if length restaurantIds > 0
      then groupTopDishes (topDishesResult foodScores restaurantIds) Map.empty
      else Map.empty)"

definition topDishesOf :: "food_score list \<Rightarrow> int list \<Rightarrow> int \<Rightarrow> top_dish list" where
  "topDishesOf foodScores restaurantIds k = getOrEmpty (buildDishMap foodScores restaurantIds) k"



section \<open>The cache backend\<close>

text \<open>
  Errors are values: a rejected promise or a thrown exception is \<open>Inl\<close> of an error.
\<close>

datatype js_error = RedisError | SyntaxError | TypeError | StorageError

type_synonym key = string

text \<open>
  The key-value store behind \<open>redis\<close>: each entry holds the stored string and the
  \<open>EX\<close> time to live it was written with. The backend may fail on any command:
  \<open>faults\<close> is the schedule of the coming commands (\<open>True\<close>: the command raises);
  once the schedule is used up, commands succeed.
\<close>

record redis =
  entries :: "key \<rightharpoonup> string \<times> nat"
  faults :: "bool list"

definition redis_tick :: "redis \<Rightarrow> bool \<times> redis" where
  "redis_tick r = (case faults r of [] \<Rightarrow> (False, r) | f # fs \<Rightarrow> (f, r\<lparr>faults := fs\<rparr>))"

definition redis_get :: "redis \<Rightarrow> key \<Rightarrow> (js_error + string option) \<times> redis" where
  "redis_get r k =
     (case redis_tick r of
        (True, r') \<Rightarrow> (Inl RedisError, r')
      | (False, r') \<Rightarrow> (Inr (map_option fst (entries r' k)), r'))"

definition redis_set :: "redis \<Rightarrow> key \<Rightarrow> string \<Rightarrow> nat \<Rightarrow> (js_error + unit) \<times> redis" where
  "redis_set r k v ttlSeconds =
     (case redis_tick r of
        (True, r') \<Rightarrow> (Inl RedisError, r')
      | (False, r') \<Rightarrow> (Inr (), r'\<lparr>entries := (entries r')(k \<mapsto> (v, ttlSeconds))\<rparr>))"

section \<open>The language runtime\<close>

text \<open>
  Built-in functions of the runtime the routes call, taken as parameters:
  \<open>createHash("md5").update(s).digest("hex")\<close>, the string of a number
  (\<open>String(n)\<close>, which is also its JSON text), \<open>Number(s)\<close> (\<open>None\<close> when the
  result is NaN or infinite), \<open>parseFloat(s)\<close>, \<open>s.toLowerCase()\<close>,
  \<open>JSON.stringify\<close> of a response
  (it may throw) and \<open>JSON.parse\<close> of a stored string (it may throw; \<open>Inr None\<close> is
  the value \<open>null\<close>), and the truthiness of a parsed value. \<open>'p\<close> is the type of the
  responses, \<open>'v\<close> the type of parsed JSON values. Strings are lists of 8-bit
  characters, standing for the code units of the source's strings.
\<close>

datatype js_number = JsFinite rat | JsNaN | JsInfinity | JsNegInfinity

record ('p, 'v) platform =
  md5hex :: "string \<Rightarrow> string"
  numberToString :: "rat \<Rightarrow> string"
  toNumber :: "string \<Rightarrow> rat option"
  parseFloat :: "string \<Rightarrow> js_number"
  toLowerCase :: "string \<Rightarrow> string"
  stringify :: "'p \<Rightarrow> js_error + string"
  parse :: "string \<Rightarrow> js_error + 'v option"
  truthy :: "'v \<Rightarrow> bool"

section \<open>cache.ts\<close>

text \<open>The body of the \<open>try\<close> block of \<open>cacheGet\<close>.\<close>

definition cacheGet_try ::
  "('p, 'v) platform \<Rightarrow> redis \<Rightarrow> key \<Rightarrow> (js_error + 'v option) \<times> redis" where
  "cacheGet_try P r k =
     (case redis_get r k of
        (Inl e, r') \<Rightarrow> (Inl e, r')
      | (Inr None, r') \<Rightarrow> (Inr None, r')
      | (Inr (Some data), r') \<Rightarrow> (parse P data, r'))"

text \<open>\<open>cacheGet\<close>: \<open>catch { return null; }\<close>. \<open>None\<close> is \<open>null\<close>.\<close>

definition cacheGet ::
  "('p, 'v) platform \<Rightarrow> redis \<Rightarrow> key \<Rightarrow> (js_error + 'v option) \<times> redis" where
  "cacheGet P r k =
     (case cacheGet_try P r k of
        (Inl e, r') \<Rightarrow> (Inr None, r')
      | (Inr v, r') \<Rightarrow> (Inr v, r'))"

text \<open>
  The body of the \<open>try\<close> block of \<open>cacheSet\<close>: the argument
  \<open>JSON.stringify(data)\<close> is evaluated before \<open>redis.set\<close> is called.
\<close>

definition cacheSet_try ::
  "('p, 'v) platform \<Rightarrow> redis \<Rightarrow> key \<Rightarrow> 'p \<Rightarrow> nat \<Rightarrow> (js_error + unit) \<times> redis" where
  "cacheSet_try P r k data ttlSeconds =
     (case stringify P data of
        Inl e \<Rightarrow> (Inl e, r)
      | Inr s \<Rightarrow> redis_set r k s ttlSeconds)"

text \<open>\<open>cacheSet\<close>: the \<open>catch\<close> block is empty.\<close>

definition cacheSet ::
  "('p, 'v) platform \<Rightarrow> redis \<Rightarrow> key \<Rightarrow> 'p \<Rightarrow> nat \<Rightarrow> (js_error + unit) \<times> redis" where
  "cacheSet P r k data ttlSeconds =
     (case cacheSet_try P r k data ttlSeconds of
        (Inl e, r') \<Rightarrow> (Inr (), r')
      | (Inr u, r') \<Rightarrow> (Inr u, r'))"

text \<open>\<open>if (cached)\<close>\<close>

definition isTruthy :: "('p, 'v) platform \<Rightarrow> 'v option \<Rightarrow> bool" where
  "isTruthy P cached = (case cached of None \<Rightarrow> False | Some v \<Rightarrow> truthy P v)"

section \<open>The search query and its schema\<close>

text \<open>
  The query string as the framework hands it to the schema: each parameter is absent or
  a string.
\<close>

record raw_search_query =
  raw_q :: "string option"
  raw_district :: "string option"
  raw_cuisine :: "string option"
  raw_price_range :: "string option"
  raw_min_score :: "string option"
  raw_sort_by :: "string option"
  raw_page :: "string option"
  raw_limit :: "string option"
  raw_lat :: "string option"
  raw_lng :: "string option"

datatype sort_by = Score | Distance | Newest

text \<open>\<open>request.query\<close> after the schema: the fields carry the prefix \<open>sq_\<close>.\<close>

record search_query =
  sq_q :: string
  sq_district :: "string option"
  sq_cuisine :: "string option"
  sq_price_range :: "int option"
  sq_min_score :: "rat option"
  sq_sort_by :: sort_by
  sq_page :: int
  sq_limit :: int
  sq_lat :: "rat option"
  sq_lng :: "rat option"

text \<open>\<open>z.string().min(2, ...).max(100)\<close>: the length of the string as given.\<close>

definition z_q :: "string option \<Rightarrow> string option" where
  "z_q v =
     (case v of
        None \<Rightarrow> None
      | Some s \<Rightarrow> if length s < 2 \<or> length s > 100 then None else Some s)"

text \<open>\<open>z.string().max(100).optional()\<close>\<close>

definition z_district :: "string option \<Rightarrow> string option option" where
  "z_district v =
     (case v of
        None \<Rightarrow> Some None
      | Some s \<Rightarrow> if length s > 100 then None else Some (Some s))"

definition cuisines :: "string list" where
  "cuisines =
     [''turk'', ''kebap'', ''balik'', ''doner'', ''pide_lahmacun'', ''ev_yemekleri'',
      ''sokak_lezzetleri'', ''tatli_pasta'', ''kahvalti'', ''italyan'', ''uzakdogu'',
      ''fast_food'', ''vegan'', ''diger'']"

text \<open>\<open>z.enum([...]).optional()\<close>\<close>

definition z_cuisine :: "string option \<Rightarrow> string option option" where
  "z_cuisine v =
     (case v of
        None \<Rightarrow> Some None
      | Some s \<Rightarrow> if s \<in> set cuisines then Some (Some s) else None)"

text \<open>\<open>z.enum(["score", "distance", "newest"]).default("score")\<close>\<close>

definition z_sort_by :: "string option \<Rightarrow> sort_by option" where
  "z_sort_by v =
     (case v of
        None \<Rightarrow> Some Score
      | Some s \<Rightarrow>
          if s = ''score'' then Some Score
          else if s = ''distance'' then Some Distance
          else if s = ''newest'' then Some Newest
          else None)"

text \<open>\<open>z.coerce.number().min(lo).max(hi)\<close>\<close>

definition z_number :: "('p, 'v) platform \<Rightarrow> rat \<Rightarrow> rat \<Rightarrow> string \<Rightarrow> rat option" where
  "z_number P lo hi s =
     (case toNumber P s of
        None \<Rightarrow> None
      | Some n \<Rightarrow> if lo \<le> n \<and> n \<le> hi then Some n else None)"

text \<open>
  \<open>z.coerce.number().int()\<close> with bounds: \<open>int\<close> accepts the safe integers.
\<close>

definition maxSafeInteger :: rat where
  "maxSafeInteger = 9007199254740991"

definition z_int :: "('p, 'v) platform \<Rightarrow> rat \<Rightarrow> rat \<Rightarrow> string \<Rightarrow> int option" where
  "z_int P lo hi s =
     (case toNumber P s of
        None \<Rightarrow> None
      | Some n \<Rightarrow>
          if of_int \<lfloor>n\<rfloor> = n \<and> - maxSafeInteger \<le> n \<and> n \<le> maxSafeInteger \<and> lo \<le> n \<and> n \<le> hi
          then Some \<lfloor>n\<rfloor> else None)"

text \<open>\<open>.optional()\<close> and \<open>.default(d)\<close> of a coerced number.\<close>

definition z_optional :: "(string \<Rightarrow> 'a option) \<Rightarrow> string option \<Rightarrow> 'a option option" where
  "z_optional f v = (case v of None \<Rightarrow> Some None | Some s \<Rightarrow> map_option Some (f s))"

definition z_default :: "(string \<Rightarrow> 'a option) \<Rightarrow> 'a \<Rightarrow> string option \<Rightarrow> 'a option" where
  "z_default f d v = (case v of None \<Rightarrow> Some d | Some s \<Rightarrow> f s)"

definition z_price_range :: "('p, 'v) platform \<Rightarrow> string option \<Rightarrow> int option option" where
  "z_price_range P = z_optional (z_int P 1 4)"

definition z_min_score :: "('p, 'v) platform \<Rightarrow> string option \<Rightarrow> rat option option" where
  "z_min_score P = z_optional (z_number P 1 10)"

text \<open>\<open>.int().positive().default(1)\<close>\<close>

definition z_page :: "('p, 'v) platform \<Rightarrow> string option \<Rightarrow> int option" where
  "z_page P = z_default (z_int P 1 maxSafeInteger) 1"

definition z_limit :: "('p, 'v) platform \<Rightarrow> string option \<Rightarrow> int option" where
  "z_limit P = z_default (z_int P 1 50) 20"

definition z_lat :: "('p, 'v) platform \<Rightarrow> string option \<Rightarrow> rat option option" where
  "z_lat P = z_optional (z_number P (- 90) 90)"

definition z_lng :: "('p, 'v) platform \<Rightarrow> string option \<Rightarrow> rat option option" where
  "z_lng P = z_optional (z_number P (- 180) 180)"

text \<open>
  \<open>SearchQuerySchema\<close>: the names of the offending fields, or the validated query.
\<close>

definition issue :: "string \<Rightarrow> 'a option \<Rightarrow> string list" where
  "issue name v = (case v of None \<Rightarrow> [name] | Some _ \<Rightarrow> [])"

definition schemaIssues :: "('p, 'v) platform \<Rightarrow> raw_search_query \<Rightarrow> string list" where
  "schemaIssues P raw =
     issue ''q'' (z_q (raw_q raw)) @
     issue ''district'' (z_district (raw_district raw)) @
     issue ''cuisine'' (z_cuisine (raw_cuisine raw)) @
     issue ''price_range'' (z_price_range P (raw_price_range raw)) @
     issue ''min_score'' (z_min_score P (raw_min_score raw)) @
     issue ''sort_by'' (z_sort_by (raw_sort_by raw)) @
     issue ''page'' (z_page P (raw_page raw)) @
     issue ''limit'' (z_limit P (raw_limit raw)) @
     issue ''lat'' (z_lat P (raw_lat raw)) @
     issue ''lng'' (z_lng P (raw_lng raw))"

definition SearchQuerySchema ::
  "('p, 'v) platform \<Rightarrow> raw_search_query \<Rightarrow> string list + search_query" where
  "SearchQuerySchema P raw =
     (if schemaIssues P raw \<noteq> [] then Inl (schemaIssues P raw)
      else Inr
        \<lparr>sq_q = the (z_q (raw_q raw)),
         sq_district = the (z_district (raw_district raw)),
         sq_cuisine = the (z_cuisine (raw_cuisine raw)),
         sq_price_range = the (z_price_range P (raw_price_range raw)),
         sq_min_score = the (z_min_score P (raw_min_score raw)),
         sq_sort_by = the (z_sort_by (raw_sort_by raw)),
         sq_page = the (z_page P (raw_page raw)),
         sq_limit = the (z_limit P (raw_limit raw)),
         sq_lat = the (z_lat P (raw_lat raw)),
         sq_lng = the (z_lng P (raw_lng raw))\<rparr>)"

section \<open>The cache key of a search\<close>

text \<open>
  The schema strips unknown keys, so the keys of \<open>request.query\<close> are among the ten
  names of the schema; a value is a string or a number.
\<close>

datatype field =
  F_q | F_district | F_cuisine | F_price_range | F_min_score
  | F_sort_by | F_page | F_limit | F_lat | F_lng

fun fieldName :: "field \<Rightarrow> string" where
  "fieldName F_q = ''q''"
| "fieldName F_district = ''district''"
| "fieldName F_cuisine = ''cuisine''"
| "fieldName F_price_range = ''price_range''"
| "fieldName F_min_score = ''min_score''"
| "fieldName F_sort_by = ''sort_by''"
| "fieldName F_page = ''page''"
| "fieldName F_limit = ''limit''"
| "fieldName F_lat = ''lat''"
| "fieldName F_lng = ''lng''"

datatype jsval = JStr string | JNum rat

fun sortByName :: "sort_by \<Rightarrow> string" where
  "sortByName Score = ''score''"
| "sortByName Distance = ''distance''"
| "sortByName Newest = ''newest''"

text \<open>
  \<open>Object.entries(request.query)\<close>: the defined fields, in the order of the schema.
\<close>

definition entryOpt :: "field \<Rightarrow> 'a option \<Rightarrow> ('a \<Rightarrow> jsval) \<Rightarrow> (field \<times> jsval) list" where
  "entryOpt f v toVal = (case v of None \<Rightarrow> [] | Some x \<Rightarrow> [(f, toVal x)])"

definition objectEntries :: "search_query \<Rightarrow> (field \<times> jsval) list" where
  "objectEntries query =
     [(F_q, JStr (sq_q query))] @
     entryOpt F_district (sq_district query) JStr @
     entryOpt F_cuisine (sq_cuisine query) JStr @
     entryOpt F_price_range (sq_price_range query) (\<lambda>n. JNum (of_int n)) @
     entryOpt F_min_score (sq_min_score query) JNum @
     [(F_sort_by, JStr (sortByName (sq_sort_by query))),
      (F_page, JNum (of_int (sq_page query))),
      (F_limit, JNum (of_int (sq_limit query)))] @
     entryOpt F_lat (sq_lat query) JNum @
     entryOpt F_lng (sq_lng query) JNum"

text \<open>
  \<open>.sort()\<close> with no comparator orders the entries by their strings,
  \<open>String([k, v]) = k + "," + String(v)\<close>, compared by code units, and is stable.
\<close>

fun valueString :: "('p, 'v) platform \<Rightarrow> jsval \<Rightarrow> string" where
  "valueString P (JStr s) = s"
| "valueString P (JNum n) = numberToString P n"

definition entryString :: "('p, 'v) platform \<Rightarrow> field \<times> jsval \<Rightarrow> string" where
  "entryString P e = fieldName (fst e) @ '','' @ valueString P (snd e)"

definition sortEntries :: "('p, 'v) platform \<Rightarrow> (field \<times> jsval) list \<Rightarrow> (field \<times> jsval) list" where
  "sortEntries P es = sort_key (entryString P) es"

text \<open>
  \<open>Object.fromEntries\<close>: an object keeps its keys in the order of their first
  insertion; a later entry of the same key replaces the value.
\<close>

definition objectSet :: "(field \<times> jsval) list \<Rightarrow> field \<times> jsval \<Rightarrow> (field \<times> jsval) list" where
  "objectSet obj e =
     (if fst e \<in> fst ` set obj
      then map (\<lambda>p. if fst p = fst e then (fst p, snd e) else p) obj
      else obj @ [e])"

definition fromEntries :: "(field \<times> jsval) list \<Rightarrow> (field \<times> jsval) list" where
  "fromEntries es = foldl objectSet [] es"

text \<open>
  \<open>JSON.stringify\<close> of the object. A string is quoted with the escapes of
  \<open>QuoteJSONString\<close>; a number is its string.
\<close>

definition hexDigit :: "nat \<Rightarrow> char" where
  "hexDigit n =
     (if n mod 16 < 10 then char_of (of_char (CHR ''0'') + n mod 16)
      else char_of (of_char (CHR ''a'') + (n mod 16 - 10)))"

definition escapeChar :: "char \<Rightarrow> string" where
  "escapeChar c =
     (if c = CHR 0x08 then [CHR 0x5C, CHR ''b'']
      else if c = CHR 0x09 then [CHR 0x5C, CHR ''t'']
      else if c = CHR 0x0A then [CHR 0x5C, CHR ''n'']
      else if c = CHR 0x0C then [CHR 0x5C, CHR ''f'']
      else if c = CHR 0x0D then [CHR 0x5C, CHR ''r'']
      else if c = CHR 0x22 then [CHR 0x5C, CHR 0x22]
      else if c = CHR 0x5C then [CHR 0x5C, CHR 0x5C]
      else if (of_char c :: nat) < 0x20
        then [CHR 0x5C, CHR ''u'', CHR ''0'', CHR ''0'',
              hexDigit (of_char c div 16), hexDigit (of_char c mod 16)]
      else [c])"

definition jsonQuote :: "string \<Rightarrow> string" where
  "jsonQuote s = [CHR 0x22] @ concat (map escapeChar s) @ [CHR 0x22]"

fun jsonValue :: "('p, 'v) platform \<Rightarrow> jsval \<Rightarrow> string" where
  "jsonValue P (JStr s) = jsonQuote s"
| "jsonValue P (JNum n) = numberToString P n"

definition jsonMember :: "('p, 'v) platform \<Rightarrow> field \<times> jsval \<Rightarrow> string" where
  "jsonMember P e = jsonQuote (fieldName (fst e)) @ '':'' @ jsonValue P (snd e)"

fun jsonMembers :: "('p, 'v) platform \<Rightarrow> (field \<times> jsval) list \<Rightarrow> string" where
  "jsonMembers P [] = []"
| "jsonMembers P [e] = jsonMember P e"
| "jsonMembers P (e # es) = jsonMember P e @ '','' @ jsonMembers P es"

definition jsonObject :: "('p, 'v) platform \<Rightarrow> (field \<times> jsval) list \<Rightarrow> string" where
  "jsonObject P obj = ''{'' @ jsonMembers P obj @ ''}''"

text \<open>The string that is hashed, and the key.\<close>

definition canonicalQuery :: "('p, 'v) platform \<Rightarrow> (field \<times> jsval) list \<Rightarrow> string" where
  "canonicalQuery P es = jsonObject P (fromEntries (sortEntries P es))"

definition searchCacheKey :: "('p, 'v) platform \<Rightarrow> (field \<times> jsval) list \<Rightarrow> key" where
  "searchCacheKey P es = ''search:'' @ md5hex P (canonicalQuery P es)"

section \<open>Storage: the venues and the functions of the engine\<close>

text \<open>A geography point, \<open>ST_MakePoint(lng, lat)\<close>.\<close>

type_synonym point = "rat \<times> rat"

text \<open>A row of \<open>restaurants\<close>; timestamps are numbers.\<close>

record restaurant =
  r_id :: int
  r_name :: string
  r_slug :: string
  r_address :: "string option"
  r_district :: "string option"
  r_neighborhood :: "string option"
  r_location :: "point option"
  r_phone :: "string option"
  r_website :: "string option"
  r_cuisineType :: "string list option"
  r_priceRange :: "int option"
  r_overallScore :: "rat option"
  r_totalReviews :: int
  r_isActive :: bool
  r_imageUrl :: "string option"
  r_createdAt :: rat
  r_updatedAt :: rat

text \<open>A row of \<open>dishes\<close>; the \<open>tsvector\<close> column is kept as text.\<close>

record dish =
  d_id :: int
  d_name :: string
  d_slug :: string
  d_canonicalName :: "string option"
  d_category :: "string option"
  d_searchVector :: "string option"

text \<open>
  The functions of the engine and of its extensions, taken as parameters:
  \<open>similarity(a, b)\<close> of \<open>pg_trgm\<close>;
  \<open>to_tsvector('turkish', doc) @@ plainto_tsquery('turkish', unaccent(q))\<close> of a
  document text and of a stored vector; \<open>lower\<close>; \<open>unaccent\<close>; \<open>ST_Distance\<close> of two
  geography points, in metres; the text in which the engine hands a geography value to
  the driver.
\<close>

record engine =
  pg_similarity :: "string \<Rightarrow> string \<Rightarrow> rat"
  pg_textSearch :: "string \<Rightarrow> string \<Rightarrow> bool"
  pg_vectorSearch :: "string \<Rightarrow> string \<Rightarrow> bool"
  pg_lower :: "string \<Rightarrow> string"
  pg_unaccent :: "string \<Rightarrow> string"
  pg_distance :: "point \<Rightarrow> point \<Rightarrow> rat"
  pg_geographyOut :: "point \<Rightarrow> string"

text \<open>
  The state of the storage: the tables, and whether the engine answers (when it does
  not, a query rejects with \<open>StorageError\<close>). The tables behind the other sections
  of a venue's detail page (platforms, dish scores, recent reviews, sentiment) are kept
  as \<open>db_sections\<close>: what the follow-up queries of the detail route give for a venue id.
\<close>

record 'd database =
  db_restaurants :: "restaurant list"
  db_foodScores :: "food_score list"
  db_dishes :: "dish list"
  db_sections :: "int \<Rightarrow> 'd"
  db_up :: bool

text \<open>
  The SQL fragments the routes put into a \<open>WHERE\<close>, as a tagged list; the fragments
  of one list are joined by \<open>AND\<close>.
\<close>

datatype condition =
  IsActive
  | TextMatch string
  | DistrictEq string
  | CuisineAny string
  | PriceRangeEq int
  | OverallScoreGe rat
  | DWithin rat rat rat
  | SlugEq string
  | NameMatch string

definition coalesce :: "string option \<Rightarrow> string" where
  "coalesce v = (case v of None \<Rightarrow> [] | Some s \<Rightarrow> s)"

text \<open>
  A fragment on a row. A comparison with NULL is not true, so the row is left out.
\<close>

fun evalCondition :: "engine \<Rightarrow> restaurant \<Rightarrow> condition \<Rightarrow> bool" where
  "evalCondition G r IsActive = (r_isActive r = True)"
| "evalCondition G r (TextMatch q) =
     (pg_textSearch G (r_name r @ '' '' @ coalesce (r_address r)) q
      \<or> pg_similarity G (r_name r) q > 2 / 10)"
| "evalCondition G r (DistrictEq d) =
     (case r_district r of None \<Rightarrow> False | Some rd \<Rightarrow> pg_lower G rd = pg_lower G d)"
| "evalCondition G r (CuisineAny c) =
     (case r_cuisineType r of None \<Rightarrow> False | Some cs \<Rightarrow> c \<in> set cs)"
| "evalCondition G r (PriceRangeEq p) = (r_priceRange r = Some p)"
| "evalCondition G r (OverallScoreGe m) =
     (case r_overallScore r of None \<Rightarrow> False | Some s \<Rightarrow> s \<ge> m)"
| "evalCondition G r (DWithin lng lat radius) =
     (case r_location r of None \<Rightarrow> False | Some loc \<Rightarrow> pg_distance G loc (lng, lat) \<le> radius)"
| "evalCondition G r (SlugEq s) = (r_slug r = s)"
| "evalCondition G r (NameMatch q) =
     (pg_similarity G (r_name r) q > 2 / 10 \<or> pg_textSearch G (r_name r) q)"

definition whereClause :: "engine \<Rightarrow> condition list \<Rightarrow> restaurant \<Rightarrow> bool" where
  "whereClause G conditions r = list_all (evalCondition G r) conditions"

text \<open>The \<open>ORDER BY\<close> of the search, and the key it sorts by.\<close>

datatype orderClause =
  OrderDistanceAsc "rat option" "rat option"
  | OrderCreatedAtDesc
  | OrderOverallScoreDescNullsLast

definition distanceTo :: "engine \<Rightarrow> rat option \<Rightarrow> rat option \<Rightarrow> restaurant \<Rightarrow> rat option" where
  "distanceTo G lng lat r =
     (case (r_location r, lng, lat) of
        (Some loc, Some x, Some y) \<Rightarrow> Some (pg_distance G loc (x, y))
      | _ \<Rightarrow> None)"

fun orderKey :: "engine \<Rightarrow> orderClause \<Rightarrow> restaurant \<Rightarrow> nat \<times> rat" where
  "orderKey G (OrderDistanceAsc lng lat) r = asc_key (distanceTo G lng lat r)"
| "orderKey G OrderCreatedAtDesc r = desc_key (Some (r_createdAt r))"
| "orderKey G OrderOverallScoreDescNullsLast r = desc_nulls_last_key (r_overallScore r)"

text \<open>
  \<open>select ... from restaurants where ... order by ... limit ... offset ...\<close> and
  \<open>select count(*)::int from restaurants where ...\<close>
\<close>

definition selectPage ::
  "engine \<Rightarrow> restaurant list \<Rightarrow> condition list \<Rightarrow> orderClause \<Rightarrow> int \<Rightarrow> int \<Rightarrow> restaurant list" where
  "selectPage G table conditions ord limit offset =
     take (nat limit) (drop (nat offset)
       (sort_key (orderKey G ord) (filter (whereClause G conditions) table)))"

definition selectCount :: "engine \<Rightarrow> restaurant list \<Rightarrow> condition list \<Rightarrow> int" where
  "selectCount G table conditions = int (length (filter (whereClause G conditions) table))"

section \<open>The column type \<open>geography\<close> of schema.ts\<close>

text \<open>
  \<open>fromDriver\<close> reads the text of the driver with the pattern
  \<^verbatim>\<open>/POINT\(([^ ]+) ([^ ]+)\)/\<close>. At one position: the literal \<open>POINT(\<close>, the whole run
  of characters other than a space (the next character must be the space), the space,
  and of the following run the longest non-empty part that is followed by a closing
  parenthesis.
\<close>

definition notSpace :: "char \<Rightarrow> bool" where
  "notSpace c = (c \<noteq> CHR '' '')"

definition matchPointHere :: "string \<Rightarrow> (string \<times> string) option" where
  "matchPointHere s =
     (if \<not> prefix ''POINT('' s then None
      else
        (let rest = drop 6 s;
             first = takeWhile notSpace rest;
             after = dropWhile notSpace rest
         in if first = [] \<or> after = [] then None
            else
              (let run = takeWhile notSpace (tl after);
                   closed = rev (dropWhile (\<lambda>c. c \<noteq> CHR '')'') (rev run))
               in if length closed < 2 then None else Some (first, butlast closed))))"

text \<open>\<open>String.prototype.match\<close>: the groups of the leftmost match.\<close>

fun matchPoint :: "string \<Rightarrow> (string \<times> string) option" where
  "matchPoint [] = None"
| "matchPoint (c # cs) =
     (case matchPointHere (c # cs) of
        Some groups \<Rightarrow> Some groups
      | None \<Rightarrow> matchPoint cs)"

text \<open>\<open>{lat, lng}\<close>\<close>

record js_point =
  pt_lat :: js_number
  pt_lng :: js_number

text \<open>
  \<open>fromDriver\<close>: the first group is the longitude, the second the latitude; a text
  without a match gives \<open>{lat: 0, lng: 0}\<close>.
\<close>

definition geography_fromDriver :: "('p, 'v) platform \<Rightarrow> string \<Rightarrow> js_point" where
  "geography_fromDriver P driverText =
     (case matchPoint driverText of
        Some (first, second) \<Rightarrow> \<lparr>pt_lat = parseFloat P second, pt_lng = parseFloat P first\<rparr>
      | None \<Rightarrow> \<lparr>pt_lat = JsFinite 0, pt_lng = JsFinite 0\<rparr>)"

text \<open>
  The column \<open>location\<close> of a selected row: NULL stays \<open>null\<close>, another value goes
  through \<open>fromDriver\<close>.
\<close>

definition selectedLocation :: "('p, 'v) platform \<Rightarrow> engine \<Rightarrow> restaurant \<Rightarrow> js_point option" where
  "selectedLocation P G r =
     map_option (\<lambda>loc. geography_fromDriver P (pg_geographyOut G loc)) (r_location r)"

section \<open>The search route\<close>

record search_item =
  si_id :: int
  si_name :: string
  si_slug :: string
  si_address :: "string option"
  si_district :: "string option"
  si_neighborhood :: "string option"
  si_cuisineType :: "string list option"
  si_priceRange :: "int option"
  si_overallScore :: "rat option"
  si_totalReviews :: int
  si_imageUrl :: "string option"
  si_distance :: "rat option"
  si_topDishes :: "top_dish list"

record pagination =
  pn_page :: int
  pn_limit :: int
  pn_total :: int
  pn_totalPages :: int
  pn_hasNext :: bool
  pn_hasPrev :: bool

record search_meta =
  m_query :: string
  m_district :: "string option"
  m_cuisine :: "string option"
  m_priceRange :: "int option"
  m_minScore :: "rat option"
  m_sortBy :: sort_by

record search_response =
  sr_data :: "search_item list"
  sr_pagination :: pagination
  sr_meta :: search_meta

text \<open>The dynamic \<open>WHERE\<close> conditions; a filter is applied when its value is truthy.\<close>

definition buildConditions :: "search_query \<Rightarrow> condition list" where
  "buildConditions query =
     [IsActive, TextMatch (sq_q query)] @
     (case sq_district query of
        Some d \<Rightarrow> if d \<noteq> [] then [DistrictEq d] else []
      | None \<Rightarrow> []) @
     (case sq_cuisine query of
        Some c \<Rightarrow> if c \<noteq> [] then [CuisineAny c] else []
      | None \<Rightarrow> []) @
     (case sq_price_range query of
        Some p \<Rightarrow> if p \<noteq> 0 then [PriceRangeEq p] else []
      | None \<Rightarrow> []) @
     (case sq_min_score query of
        Some m \<Rightarrow> if m \<noteq> 0 then [OverallScoreGe m] else []
      | None \<Rightarrow> []) @
     (case (sq_lat query, sq_lng query) of
        (Some lat, Some lng) \<Rightarrow> [DWithin lng lat 10000]
      | _ \<Rightarrow> [])"

text \<open>The \<open>switch (sort_by)\<close>.\<close>

definition searchOrder :: "search_query \<Rightarrow> orderClause" where
  "searchOrder query =
     (case sq_sort_by query of
        Distance \<Rightarrow> OrderDistanceAsc (sq_lng query) (sq_lat query)
      | Newest \<Rightarrow> OrderCreatedAtDesc
      | Score \<Rightarrow> OrderOverallScoreDescNullsLast)"

text \<open>\<open>distance_km\<close>: the distance in kilometres when both coordinates are given.\<close>

definition distanceKm :: "engine \<Rightarrow> search_query \<Rightarrow> restaurant \<Rightarrow> rat option" where
  "distanceKm G query r =
     (case (sq_lat query, sq_lng query) of
        (Some lat, Some lng) \<Rightarrow> map_option (\<lambda>m. m / 1000) (distanceTo G (Some lng) (Some lat) r)
      | _ \<Rightarrow> None)"

definition toSearchItem ::
  "engine \<Rightarrow> search_query \<Rightarrow> (int \<Rightarrow> top_dish list) \<Rightarrow> restaurant \<Rightarrow> search_item" where
  "toSearchItem G query dishesOf r =
     \<lparr>si_id = r_id r, si_name = r_name r, si_slug = r_slug r, si_address = r_address r,
      si_district = r_district r, si_neighborhood = r_neighborhood r,
      si_cuisineType = r_cuisineType r, si_priceRange = r_priceRange r,
      si_overallScore = r_overallScore r, si_totalReviews = r_totalReviews r,
      si_imageUrl = r_imageUrl r, si_distance = distanceKm G query r,
      si_topDishes = dishesOf (r_id r)\<rparr>"

text \<open>The rows of the page and the count, as the two parallel queries give them.\<close>

definition searchResults :: "engine \<Rightarrow> 'd database \<Rightarrow> search_query \<Rightarrow> restaurant list" where
  "searchResults G db query =
     selectPage G (db_restaurants db) (buildConditions query) (searchOrder query)
       (sq_limit query) ((sq_page query - 1) * sq_limit query)"

definition searchTotal :: "engine \<Rightarrow> 'd database \<Rightarrow> search_query \<Rightarrow> int" where
  "searchTotal G db query = selectCount G (db_restaurants db) (buildConditions query)"

definition searchResponse :: "engine \<Rightarrow> 'd database \<Rightarrow> search_query \<Rightarrow> search_response" where
  "searchResponse G db query =
     (let results = searchResults G db query;
          total = searchTotal G db query;
          restaurantIds = map r_id results;
          totalPages = \<lceil>(of_int total :: rat) / of_int (sq_limit query)\<rceil>
      in \<lparr>sr_data = map (toSearchItem G query (topDishesOf (db_foodScores db) restaurantIds)) results,
          sr_pagination =
            \<lparr>pn_page = sq_page query, pn_limit = sq_limit query, pn_total = total,
             pn_totalPages = totalPages, pn_hasNext = (sq_page query < totalPages),
             pn_hasPrev = (sq_page query > 1)\<rparr>,
          sr_meta =
            \<lparr>m_query = sq_q query, m_district = sq_district query,
             m_cuisine = sq_cuisine query, m_priceRange = sq_price_range query,
             m_minScore = sq_min_score query, m_sortBy = sq_sort_by query\<rparr>\<rparr>)"

section \<open>Replies and the calls a request issues\<close>

text \<open>The venue of a detail page, and the page.\<close>

record detail_venue =
  dv_id :: int
  dv_name :: string
  dv_slug :: string
  dv_address :: "string option"
  dv_district :: "string option"
  dv_neighborhood :: "string option"
  dv_location :: "js_point option"
  dv_phone :: "string option"
  dv_website :: "string option"
  dv_cuisineType :: "string list option"
  dv_priceRange :: "int option"
  dv_overallScore :: "rat option"
  dv_totalReviews :: int
  dv_imageUrl :: "string option"

record 'd detail_response =
  dr_restaurant :: detail_venue
  dr_sections :: 'd

text \<open>The suggestions of the autocomplete route.\<close>

record restaurant_suggestion =
  rs_id :: int
  rs_name :: string
  rs_slug :: string
  rs_district :: "string option"
  rs_cuisineType :: "string list option"
  rs_overallScore :: "rat option"

record dish_suggestion =
  ds_id :: int
  ds_name :: string
  ds_slug :: string
  ds_category :: "string option"
  ds_restaurantCount :: int

record autocomplete_response =
  ac_restaurants :: "restaurant_suggestion list"
  ac_dishes :: "dish_suggestion list"

text \<open>What a route stores in the cache and sends on a miss.\<close>

datatype 'd payload =
  SearchPayload search_response
  | DetailPayload "'d detail_response"
  | AutocompletePayload autocomplete_response

text \<open>
  A reply: the cached value with \<open>X-Cache: HIT\<close>; a fresh response with
  \<open>X-Cache: MISS\<close>; a 400 or a 404 with its message; a 500 when a promise rejects.
\<close>

datatype ('d, 'v) reply =
  Hit 'v
  | Miss "'d payload"
  | BadRequest string
  | NotFound string
  | InternalError js_error

fun statusCode :: "('d, 'v) reply \<Rightarrow> nat" where
  "statusCode (Hit v) = 200"
| "statusCode (Miss p) = 200"
| "statusCode (BadRequest m) = 400"
| "statusCode (NotFound m) = 404"
| "statusCode (InternalError e) = 500"

text \<open>The queries sent to storage and the calls to the cache, in the order of issue.\<close>

datatype db_query =
  SelectRestaurants "condition list" "orderClause option" "int option" "int option"
  | CountRestaurants "condition list"
  | SelectFoodScores "int list"
  | SuggestRestaurants "condition list" string int
  | SuggestDishes string int
  | SelectSections int

datatype io = CacheRead key | CacheWrite key nat | Storage db_query

record ('d, 'v) outcome =
  o_reply :: "('d, 'v) reply"
  o_redis :: redis
  o_trace :: "io list"

text \<open>The conditions of the venue queries among the calls of a request.\<close>

fun venueConditions :: "io \<Rightarrow> condition list list" where
  "venueConditions (Storage (SelectRestaurants cs ord l off)) = [cs]"
| "venueConditions (Storage (CountRestaurants cs)) = [cs]"
| "venueConditions (Storage (SuggestRestaurants cs q l)) = [cs]"
| "venueConditions _ = []"

fun isStorage :: "io \<Rightarrow> bool" where
  "isStorage (Storage q) = True"
| "isStorage _ = False"

section \<open>The search handler\<close>

definition needsCoordinates :: "search_query \<Rightarrow> bool" where
  "needsCoordinates query =
     (sq_sort_by query = Distance \<and> (sq_lat query = None \<or> sq_lng query = None))"

definition distanceMessage :: string where
  "distanceMessage = ''Mesafeye gore siralama icin lat ve lng parametreleri gereklidir.''"

text \<open>The queries of a search, in the order of issue.\<close>

definition searchQueries :: "engine \<Rightarrow> 'd database \<Rightarrow> search_query \<Rightarrow> io list" where
  "searchQueries G db query =
     [Storage (SelectRestaurants (buildConditions query) (Some (searchOrder query))
        (Some (sq_limit query)) (Some ((sq_page query - 1) * sq_limit query))),
      Storage (CountRestaurants (buildConditions query))] @
     (if db_up db \<and> length (searchResults G db query) > 0
      then [Storage (SelectFoodScores (map r_id (searchResults G db query)))] else [])"

text \<open>The handler after the cache lookup found nothing.\<close>

definition searchMiss ::
  "('d payload, 'v) platform \<Rightarrow> engine \<Rightarrow> 'd database \<Rightarrow> redis \<Rightarrow> search_query \<Rightarrow> key
     \<Rightarrow> ('d, 'v) outcome" where
  "searchMiss P G db r query cacheKey =
     (if needsCoordinates query
      then \<lparr>o_reply = BadRequest distanceMessage, o_redis = r, o_trace = []\<rparr>
      else if \<not> db_up db
      then \<lparr>o_reply = InternalError StorageError, o_redis = r,
            o_trace = searchQueries G db query\<rparr>
      else
        (let response = SearchPayload (searchResponse G db query) in
         case cacheSet P r cacheKey response 300 of
           (Inl e, r') \<Rightarrow>
             \<lparr>o_reply = InternalError e, o_redis = r',
              o_trace = searchQueries G db query @ [CacheWrite cacheKey 300]\<rparr>
         | (Inr u, r') \<Rightarrow>
             \<lparr>o_reply = Miss response, o_redis = r',
              o_trace = searchQueries G db query @ [CacheWrite cacheKey 300]\<rparr>))"

text \<open>
  A handler begins with the cache lookup: a truthy cached value is returned as it is.
\<close>

definition withCache ::
  "('d payload, 'v) platform \<Rightarrow> redis \<Rightarrow> key \<Rightarrow> (redis \<Rightarrow> ('d, 'v) outcome) \<Rightarrow> ('d, 'v) outcome" where
  "withCache P r cacheKey onMiss =
     (case cacheGet P r cacheKey of
        (Inl e, r') \<Rightarrow>
          \<lparr>o_reply = InternalError e, o_redis = r', o_trace = [CacheRead cacheKey]\<rparr>
      | (Inr cached, r') \<Rightarrow>
          (case cached of
             Some v \<Rightarrow>
               if truthy P v
               then \<lparr>o_reply = Hit v, o_redis = r', o_trace = [CacheRead cacheKey]\<rparr>
               else (onMiss r')\<lparr>o_trace := CacheRead cacheKey # o_trace (onMiss r')\<rparr>
           | None \<Rightarrow> (onMiss r')\<lparr>o_trace := CacheRead cacheKey # o_trace (onMiss r')\<rparr>))"

definition searchHandler ::
  "('d payload, 'v) platform \<Rightarrow> engine \<Rightarrow> 'd database \<Rightarrow> redis \<Rightarrow> search_query
     \<Rightarrow> ('d, 'v) outcome" where
  "searchHandler P G db r query =
     (let cacheKey = searchCacheKey P (objectEntries query) in
      withCache P r cacheKey (\<lambda>r'. searchMiss P G db r' query cacheKey))"

text \<open>
  The route: the framework validates the query string against the schema and calls the
  handler with the validated query; a query string the schema refuses is answered with
  400 and the handler is not called.
\<close>

definition searchRoute ::
  "('d payload, 'v) platform \<Rightarrow> engine \<Rightarrow> 'd database \<Rightarrow> redis \<Rightarrow> raw_search_query
     \<Rightarrow> ('d, 'v) outcome" where
  "searchRoute P G db r raw =
     (case SearchQuerySchema P raw of
        Inl issues \<Rightarrow>
          \<lparr>o_reply = BadRequest (concat issues), o_redis = r, o_trace = []\<rparr>
      | Inr query \<Rightarrow> searchHandler P G db r query)"

text \<open>\<open>String.prototype.trim\<close> on code units below 256.\<close>

definition isWhiteSpace :: "char \<Rightarrow> bool" where
  "isWhiteSpace c =
     (c \<in> set [CHR 0x09, CHR 0x0A, CHR 0x0B, CHR 0x0C, CHR 0x0D, CHR 0x20, CHR 0xA0])"

definition trim :: "string \<Rightarrow> string" where
  "trim s = rev (dropWhile isWhiteSpace (rev (dropWhile isWhiteSpace s)))"

section \<open>The restaurant detail route\<close>

text \<open>
  The venue of the response; \<open>location\<close> is
  \<open>rest.location ? {lat: rest.location.lat, lng: rest.location.lng} : null\<close>, where
  \<open>rest.location\<close> is the selected column.
\<close>

definition toDetailVenue :: "('p, 'v) platform \<Rightarrow> engine \<Rightarrow> restaurant \<Rightarrow> detail_venue" where
  "toDetailVenue P G rest =
     \<lparr>dv_id = r_id rest, dv_name = r_name rest, dv_slug = r_slug rest,
      dv_address = r_address rest, dv_district = r_district rest,
      dv_neighborhood = r_neighborhood rest,
      dv_location =
        (case selectedLocation P G rest of
           None \<Rightarrow> None
         | Some location \<Rightarrow> Some \<lparr>pt_lat = pt_lat location, pt_lng = pt_lng location\<rparr>),
      dv_phone = r_phone rest, dv_website = r_website rest,
      dv_cuisineType = r_cuisineType rest, dv_priceRange = r_priceRange rest,
      dv_overallScore = r_overallScore rest, dv_totalReviews = r_totalReviews rest,
      dv_imageUrl = r_imageUrl rest\<rparr>"

text \<open>
  \<open>select().from(restaurants).where(and(eq(slug, slug), eq(isActive, true))).limit(1)\<close>
\<close>

definition detailConditions :: "string \<Rightarrow> condition list" where
  "detailConditions slug = [SlugEq slug, IsActive]"

definition restaurantResult :: "engine \<Rightarrow> 'd database \<Rightarrow> string \<Rightarrow> restaurant list" where
  "restaurantResult G db slug =
     take 1 (filter (whereClause G (detailConditions slug)) (db_restaurants db))"

definition notFoundMessage :: "string \<Rightarrow> string" where
  "notFoundMessage slug = ''Restoran bulunamadi: '' @ slug"

definition restaurantMiss ::
  "('d payload, 'v) platform \<Rightarrow> engine \<Rightarrow> 'd database \<Rightarrow> redis \<Rightarrow> string \<Rightarrow> key
     \<Rightarrow> ('d, 'v) outcome" where
  "restaurantMiss P G db r slug cacheKey =
     (let q1 = Storage (SelectRestaurants (detailConditions slug) None (Some 1) None) in
      if \<not> db_up db
      then \<lparr>o_reply = InternalError StorageError, o_redis = r, o_trace = [q1]\<rparr>
      else
        (case restaurantResult G db slug of
           [] \<Rightarrow> \<lparr>o_reply = NotFound (notFoundMessage slug), o_redis = r, o_trace = [q1]\<rparr>
         | rest # others \<Rightarrow>
             (let response = DetailPayload
                    \<lparr>dr_restaurant = toDetailVenue P G rest,
                     dr_sections = db_sections db (r_id rest)\<rparr>;
                  calls = [q1, Storage (SelectSections (r_id rest)), CacheWrite cacheKey 900] in
              case cacheSet P r cacheKey response 900 of
                (Inl e, r') \<Rightarrow> \<lparr>o_reply = InternalError e, o_redis = r', o_trace = calls\<rparr>
              | (Inr u, r') \<Rightarrow> \<lparr>o_reply = Miss response, o_redis = r', o_trace = calls\<rparr>)))"

definition restaurantCacheKey :: "string \<Rightarrow> key" where
  "restaurantCacheKey slug = ''restaurant:'' @ slug"

definition restaurantHandler ::
  "('d payload, 'v) platform \<Rightarrow> engine \<Rightarrow> 'd database \<Rightarrow> redis \<Rightarrow> string \<Rightarrow> ('d, 'v) outcome" where
  "restaurantHandler P G db r slug =
     (let cacheKey = restaurantCacheKey slug in
      withCache P r cacheKey (\<lambda>r'. restaurantMiss P G db r' slug cacheKey))"






section \<open>The autocomplete route\<close>


text \<open>
  The venue suggestions: \<open>where (similarity(name, q) > 0.2 OR ...) AND is_active = true
  order by similarity(name, q) DESC, overall_score DESC limit 5\<close>
\<close>

definition suggestConditions :: "string \<Rightarrow> condition list" where
  "suggestConditions q = [NameMatch q, IsActive]"

definition suggestKey :: "engine \<Rightarrow> string \<Rightarrow> restaurant \<Rightarrow> (nat \<times> rat) \<times> (nat \<times> rat)" where
  "suggestKey G q r = (desc_key (Some (pg_similarity G (r_name r) q)), desc_key (r_overallScore r))"

definition suggestRestaurants :: "engine \<Rightarrow> 'd database \<Rightarrow> string \<Rightarrow> restaurant list" where
  "suggestRestaurants G db q =
     take 5 (sort_key (suggestKey G q)
       (filter (whereClause G (suggestConditions q)) (db_restaurants db)))"

text \<open>
  The dish suggestions: \<open>where (similarity(coalesce(canonical_name, name), q) > 0.2
  OR search_vector @@ ...) order by similarity(coalesce(canonical_name, name), q) DESC
  limit 5\<close>
\<close>

definition dishTitle :: "dish \<Rightarrow> string" where
  "dishTitle d = (case d_canonicalName d of None \<Rightarrow> d_name d | Some c \<Rightarrow> c)"

definition dishMatches :: "engine \<Rightarrow> string \<Rightarrow> dish \<Rightarrow> bool" where
  "dishMatches G q d =
     (pg_similarity G (dishTitle d) q > 2 / 10
      \<or> (case d_searchVector d of None \<Rightarrow> False | Some v \<Rightarrow> pg_vectorSearch G v q))"

definition suggestDishes :: "engine \<Rightarrow> 'd database \<Rightarrow> string \<Rightarrow> dish list" where
  "suggestDishes G db q =
     take 5 (sort_key (\<lambda>d. desc_key (Some (pg_similarity G (dishTitle d) q)))
       (filter (dishMatches G q) (db_dishes db)))"

text \<open>
  \<open>restaurant_count\<close>: the number of distinct venues with a score for the dish.
\<close>

definition restaurantCount :: "engine \<Rightarrow> 'd database \<Rightarrow> dish \<Rightarrow> int" where
  "restaurantCount G db d =
     int (length (remdups (map fs_restaurantId
       (filter (\<lambda>f. pg_lower G (pg_unaccent G (fs_foodName f)) =
                     pg_lower G (pg_unaccent G (dishTitle d)))
         (db_foodScores db)))))"

definition toRestaurantSuggestion :: "restaurant \<Rightarrow> restaurant_suggestion" where
  "toRestaurantSuggestion rest =
     \<lparr>rs_id = r_id rest, rs_name = r_name rest, rs_slug = r_slug rest,
      rs_district = r_district rest, rs_cuisineType = r_cuisineType rest,
      rs_overallScore = r_overallScore rest\<rparr>"

definition toDishSuggestion :: "engine \<Rightarrow> 'd database \<Rightarrow> dish \<Rightarrow> dish_suggestion" where
  "toDishSuggestion G db d =
     \<lparr>ds_id = d_id d, ds_name = d_name d, ds_slug = d_slug d, ds_category = d_category d,
      ds_restaurantCount = restaurantCount G db d\<rparr>"

definition autocompleteResponse :: "engine \<Rightarrow> 'd database \<Rightarrow> string \<Rightarrow> autocomplete_response" where
  "autocompleteResponse G db q =
     \<lparr>ac_restaurants = map toRestaurantSuggestion (suggestRestaurants G db q),
      ac_dishes = map (toDishSuggestion G db) (suggestDishes G db q)\<rparr>"

definition autocompleteMiss ::
  "('d payload, 'v) platform \<Rightarrow> engine \<Rightarrow> 'd database \<Rightarrow> redis \<Rightarrow> string \<Rightarrow> key
     \<Rightarrow> ('d, 'v) outcome" where
  "autocompleteMiss P G db r q cacheKey =
     (let queries = [Storage (SuggestRestaurants (suggestConditions q) q 5),
                     Storage (SuggestDishes q 5)] in
      if \<not> db_up db
      then \<lparr>o_reply = InternalError StorageError, o_redis = r, o_trace = queries\<rparr>
      else
        (let response = AutocompletePayload (autocompleteResponse G db q) in
         case cacheSet P r cacheKey response 3600 of
           (Inl e, r') \<Rightarrow>
             \<lparr>o_reply = InternalError e, o_redis = r',
              o_trace = queries @ [CacheWrite cacheKey 3600]\<rparr>
         | (Inr u, r') \<Rightarrow>
             \<lparr>o_reply = Miss response, o_redis = r',
              o_trace = queries @ [CacheWrite cacheKey 3600]\<rparr>))"

text \<open>The handler trims the validated query; the key is its lower case.\<close>

definition autocompleteCacheKey :: "('p, 'v) platform \<Rightarrow> string \<Rightarrow> key" where
  "autocompleteCacheKey P q = ''autocomplete:'' @ trim (toLowerCase P q)"

definition autocompleteHandler ::
  "('d payload, 'v) platform \<Rightarrow> engine \<Rightarrow> 'd database \<Rightarrow> redis \<Rightarrow> string \<Rightarrow> ('d, 'v) outcome" where
  "autocompleteHandler P G db r validated =
     (let q = trim validated;
          cacheKey = autocompleteCacheKey P q in
      withCache P r cacheKey (\<lambda>r'. autocompleteMiss P G db r' q cacheKey))"


section \<open>The states of the cache\<close>

text \<open>
  The cache starts empty and is written by the three routes only; an entry may vanish
  at any time (its time to live runs out, or the key is invalidated), and the backend
  may start or stop failing at any time. Storage and its engine may differ from one
  request to the next.
\<close>

inductive reachable :: "('d payload, 'v) platform \<Rightarrow> redis \<Rightarrow> bool" for P where
  reach_empty: "entries r = Map.empty \<Longrightarrow> reachable P r"
| reach_search: "reachable P r \<Longrightarrow> reachable P (o_redis (searchHandler P G db r query))"
| reach_restaurant: "reachable P r \<Longrightarrow> reachable P (o_redis (restaurantHandler P G db r slug))"
| reach_autocomplete: "reachable P r \<Longrightarrow> reachable P (o_redis (autocompleteHandler P G db r q))"
| reach_forget: "reachable P r \<Longrightarrow> reachable P (r\<lparr>entries := (entries r)(k := None)\<rparr>)"
| reach_faults: "reachable P r \<Longrightarrow> reachable P (r\<lparr>faults := fs\<rparr>)"

text \<open>
  No request that passes the coordinate check has the key of this request: the digest
  does not collide on their canonical texts.
\<close>

definition noCollision :: "('p, 'v) platform \<Rightarrow> search_query \<Rightarrow> bool" where
  "noCollision P query =
     (\<forall>other. \<not> needsCoordinates other \<longrightarrow>
        searchCacheKey P (objectEntries other) \<noteq> searchCacheKey P (objectEntries query))"

text \<open>
  Where the key of an entry comes from: a search that passed the coordinate check, a
  detail page, or an autocomplete.
\<close>

definition keyOrigin :: "('p, 'v) platform \<Rightarrow> key \<Rightarrow> bool" where
  "keyOrigin P k =
     ((\<exists>query. \<not> needsCoordinates query \<and> k = searchCacheKey P (objectEntries query))
      \<or> (\<exists>slug. k = restaurantCacheKey slug)
      \<or> (\<exists>q. k = autocompleteCacheKey P q))"

section \<open>What key derivation needs of the text of a number\<close>

text \<open>The numbers among the values of a list of entries.\<close>

definition numbersOf :: "(field \<times> jsval) list \<Rightarrow> rat list" where
  "numbersOf es = concat (map (\<lambda>e. case snd e of JNum n \<Rightarrow> [n] | JStr s \<Rightarrow> []) es)"

text \<open>
  The text of a number is made of digits, a sign, a point and an exponent mark: it holds
  no comma, no closing brace and no double quote.
\<close>

definition plainText :: "string \<Rightarrow> bool" where
  "plainText s = list_all (\<lambda>c. c \<noteq> CHR '','' \<and> c \<noteq> CHR ''}'' \<and> c \<noteq> CHR 0x22) s"

text \<open>
  The numbers of the list have plain texts, and two of them with the same text are the
  same number.
\<close>

definition numbersPrintWell :: "('p, 'v) platform \<Rightarrow> rat list \<Rightarrow> bool" where
  "numbersPrintWell P ns =
     (list_all (\<lambda>n. plainText (numberToString P n)) ns
      \<and> list_all (\<lambda>n. list_all (\<lambda>m. numberToString P n = numberToString P m \<longrightarrow> n = m) ns) ns)"

section \<open>Example data\<close>

text \<open>Dish scores of two venues: venue 1 has four scored rows and one unscored row.\<close>

definition exampleScores :: "food_score list" where
  "exampleScores =
     [\<lparr>fs_restaurantId = 1, fs_foodName = ''pide'', fs_score = Some 5, fs_reviewCount = 3\<rparr>,
      \<lparr>fs_restaurantId = 1, fs_foodName = ''adana'', fs_score = Some 9, fs_reviewCount = 7\<rparr>,
      \<lparr>fs_restaurantId = 1, fs_foodName = ''corba'', fs_score = None, fs_reviewCount = 0\<rparr>,
      \<lparr>fs_restaurantId = 2, fs_foodName = ''doner'', fs_score = Some 7, fs_reviewCount = 2\<rparr>,
      \<lparr>fs_restaurantId = 1, fs_foodName = ''kunefe'', fs_score = Some 6, fs_reviewCount = 1\<rparr>,
      \<lparr>fs_restaurantId = 1, fs_foodName = ''lahmacun'', fs_score = Some 8, fs_reviewCount = 4\<rparr>]"

section \<open>The reply of a search computed from storage alone\<close>

text \<open>
  What the search handler answers when the cache gives nothing: the reply is a function
  of the query and of the storage only.
\<close>

definition storageReply :: "engine \<Rightarrow> 'd database \<Rightarrow> search_query \<Rightarrow> ('d, 'v) reply" where
  "storageReply G db query =
     (if needsCoordinates query then BadRequest distanceMessage
      else if \<not> db_up db then InternalError StorageError
      else Miss (SearchPayload (searchResponse G db query)))"

text \<open>
  A runtime for the examples: decimal text and reading of whole numbers, ASCII lower
  case, \<open>parseFloat\<close> of whole numbers, a stand-in digest of 32 characters, and a JSON
  codec that keeps stored text as the parsed value (the text \<open>null\<close> is \<open>null\<close>,
  the text \<open>{\<close> does not parse).
\<close>

definition digitChar :: "nat \<Rightarrow> char" where
  "digitChar n = ''0123456789'' ! (n mod 10)"

fun decimal :: "nat \<Rightarrow> string" where
  "decimal n = (if n < 10 then [digitChar n] else decimal (n div 10) @ [digitChar (n mod 10)])"

declare decimal.simps [simp del]

definition exampleNumberToString :: "rat \<Rightarrow> string" where
  "exampleNumberToString n =
     (if n < 0 then ''-'' @ decimal (nat \<lfloor>- n\<rfloor>) else decimal (nat \<lfloor>n\<rfloor>))"

definition digitValue :: "char \<Rightarrow> nat" where
  "digitValue c = of_char c - of_char (CHR ''0'')"

definition isDigit :: "char \<Rightarrow> bool" where
  "isDigit c = (CHR ''0'' \<le> c \<and> c \<le> CHR ''9'')"

definition exampleToNumber :: "string \<Rightarrow> rat option" where
  "exampleToNumber s =
     (if s \<noteq> [] \<and> list_all isDigit s
      then Some (of_nat (foldl (\<lambda>a c. 10 * a + digitValue c) 0 s))
      else None)"

definition asciiLower :: "char \<Rightarrow> char" where
  "asciiLower c = (if CHR ''A'' \<le> c \<and> c \<le> CHR ''Z'' then char_of (of_char c + (32::nat)) else c)"

definition examplePlatform :: "(unit payload, string) platform" where
  "examplePlatform =
     \<lparr>md5hex = (\<lambda>s. take 32 (s @ replicate 32 (CHR ''0''))),
      numberToString = exampleNumberToString,
      toNumber = exampleToNumber,
      parseFloat = (\<lambda>s. case exampleToNumber s of None \<Rightarrow> JsNaN | Some n \<Rightarrow> JsFinite n),
      toLowerCase = map asciiLower,
      stringify = (\<lambda>p. Inr ''payload''),
      parse = (\<lambda>s. if s = ''null'' then Inr None
                   else if s = ''{'' then Inl SyntaxError else Inr (Some s)),
      truthy = (\<lambda>v. v \<noteq> [])\<rparr>"

text \<open>
  An engine for the examples: a name is similar to its prefixes, no text search, the
  distance of two points is the sum of the differences of their coordinates, and a
  geography value is handed over as its EWKT text.
\<close>

definition exampleEngine :: engine where
  "exampleEngine =
     \<lparr>pg_similarity = (\<lambda>a b. if prefix b a then 1 else 0),
      pg_textSearch = (\<lambda>doc q. False),
      pg_vectorSearch = (\<lambda>v q. False),
      pg_lower = map asciiLower,
      pg_unaccent = (\<lambda>s. s),
      pg_distance = (\<lambda>a b. \<bar>fst a - fst b\<bar> + \<bar>snd a - snd b\<bar>),
      pg_geographyOut = (\<lambda>p. ''SRID=4326;POINT('' @ exampleNumberToString (fst p) @ '' '' @
                                exampleNumberToString (snd p) @ '')'')\<rparr>"

text \<open>Venues: a row with the given id, name, slug, place, score, flag and creation time.\<close>

definition venue ::
  "int \<Rightarrow> string \<Rightarrow> string \<Rightarrow> point option \<Rightarrow> rat option \<Rightarrow> bool \<Rightarrow> rat \<Rightarrow> restaurant" where
  "venue i nm sl loc sc act created =
     \<lparr>r_id = i, r_name = nm, r_slug = sl, r_address = None, r_district = Some ''kadikoy'',
      r_neighborhood = None, r_location = loc, r_phone = None, r_website = None,
      r_cuisineType = Some [''kebap''], r_priceRange = Some 2, r_overallScore = sc,
      r_totalReviews = 10, r_isActive = act, r_imageUrl = None, r_createdAt = created,
      r_updatedAt = created\<rparr>"

definition exampleVenues :: "restaurant list" where
  "exampleVenues =
     [venue 1 ''kebapci ali'' ''kebapci-ali'' (Some (29, 41)) (Some 5) True 100,
      venue 2 ''kebapci veli'' ''kebapci-veli'' (Some (29, 41)) (Some 9) True 100,
      venue 3 ''kebap evi'' ''kebap-evi'' (Some (30, 41)) None False 200,
      venue 4 ''kebap dunyasi'' ''kebap-dunyasi'' (Some (29, 42)) (Some 7) True 300]"

definition exampleDishes :: "dish list" where
  "exampleDishes =
     [\<lparr>d_id = 1, d_name = ''Pide'', d_slug = ''pide'', d_canonicalName = Some ''pide'',
       d_category = Some ''hamur'', d_searchVector = None\<rparr>,
      \<lparr>d_id = 2, d_name = ''kebap'', d_slug = ''kebap'', d_canonicalName = None,
       d_category = None, d_searchVector = None\<rparr>]"

definition exampleDb :: "unit database" where
  "exampleDb =
     \<lparr>db_restaurants = exampleVenues, db_foodScores = exampleScores,
      db_dishes = exampleDishes, db_sections = (\<lambda>i. ()), db_up = True\<rparr>"

text \<open>A cache whose backend raises on the next two commands, and an empty working one.\<close>

definition failingRedis :: redis where
  "failingRedis = \<lparr>entries = Map.empty, faults = [True, True]\<rparr>"

definition emptyRedis :: redis where
  "emptyRedis = \<lparr>entries = Map.empty, faults = []\<rparr>"

text \<open>The validated query of \<open>?q=kebap\<close>, and of \<open>?q=kebap&sort_by=distance\<close>.\<close>

definition exampleQuery :: search_query where
  "exampleQuery =
     \<lparr>sq_q = ''kebap'', sq_district = None, sq_cuisine = None, sq_price_range = None,
      sq_min_score = None, sq_sort_by = Score, sq_page = 1, sq_limit = 20,
      sq_lat = None, sq_lng = None\<rparr>"

definition distanceQuery :: search_query where
  "distanceQuery = exampleQuery\<lparr>sq_sort_by := Distance\<rparr>"

text \<open>Query strings with only \<open>q\<close>, and with \<open>q\<close> and \<open>sort_by=distance\<close>.\<close>

definition rawQuery :: "string \<Rightarrow> raw_search_query" where
  "rawQuery s =
     \<lparr>raw_q = Some s, raw_district = None, raw_cuisine = None, raw_price_range = None,
      raw_min_score = None, raw_sort_by = None, raw_page = None, raw_limit = None,
      raw_lat = None, raw_lng = None\<rparr>"

definition rawDistance :: raw_search_query where
  "rawDistance = (rawQuery ''kebap'')\<lparr>raw_sort_by := Some ''distance''\<rparr>"

text \<open>
  The validated queries of \<open>?q=kebap&sort_by=distance&lat=41&lng=29\<close> and of
  \<open>?q=kebap&sort_by=newest\<close>.
\<close>

definition nearQuery :: search_query where
  "nearQuery = exampleQuery\<lparr>sq_sort_by := Distance, sq_lat := Some 41, sq_lng := Some 29\<rparr>"

definition newestQuery :: search_query where
  "newestQuery = exampleQuery\<lparr>sq_sort_by := Newest\<rparr>"

text \<open>
  The entries of \<open>?q=kebap\<close> in an order other than that of the schema, and the entries
  of its second page.
\<close>

definition entriesB :: "(field \<times> jsval) list" where
  "entriesB = [(F_limit, JNum 20), (F_q, JStr ''kebap''), (F_page, JNum 1), (F_sort_by, JStr ''score'')]"

definition entriesC :: "(field \<times> jsval) list" where
  "entriesC = [(F_q, JStr ''kebap''), (F_sort_by, JStr ''score''), (F_page, JNum 2), (F_limit, JNum 20)]"

text \<open>
  A runtime without collisions, for the examples: the digest of a text is the text, and
  a number is printed as the fraction of its numerator and denominator in decimal.
\<close>

definition fractionText :: "rat \<Rightarrow> string" where
  "fractionText n =
     (if fst (quotient_of n) < 0 then ''-'' else []) @
     decimal (nat \<bar>fst (quotient_of n)\<bar>) @ ''/'' @ decimal (nat (snd (quotient_of n)))"

definition plainPlatform :: "(unit payload, string) platform" where
  "plainPlatform = examplePlatform\<lparr>md5hex := (\<lambda>s. s), numberToString := fractionText\<rparr>"

text \<open>The cache after the example search on the runtime without collisions.\<close>

definition warmRedis :: redis where
  "warmRedis = o_redis (searchHandler plainPlatform exampleEngine exampleDb emptyRedis exampleQuery)"

text \<open>The validated query of the second page of \<open>?q=kebap\<close>.\<close>

definition pageTwoQuery :: search_query where
  "pageTwoQuery = exampleQuery\<lparr>sq_page := 2\<rparr>"







section \<open>Grouping: proofs\<close>







section \<open>The cache layer absorbs the errors of its backend\<close>

lemma cacheGet_Inr: "\<exists>v. fst (cacheGet P r k) = Inr v"
  by (auto simp: cacheGet_def split: prod.splits sum.splits)

lemma cacheGet_backend_error:
  "fst (redis_get r k) = Inl e \<Longrightarrow> fst (cacheGet P r k) = Inr None"
  by (auto simp: cacheGet_def cacheGet_try_def split: prod.splits sum.splits option.splits)

lemma cacheGet_parse_error:
  "fst (redis_get r k) = Inr (Some s) \<Longrightarrow> parse P s = Inl e \<Longrightarrow> fst (cacheGet P r k) = Inr None"
  by (auto simp: cacheGet_def cacheGet_try_def split: prod.splits sum.splits option.splits)

lemma cacheSet_Inr: "fst (cacheSet P r k d t) = Inr ()"
  by (auto simp: cacheSet_def split: prod.splits sum.splits)

lemma searchMiss_reply: "o_reply (searchMiss P G db r query key) = storageReply G db query"
  using cacheSet_Inr [of P r key "SearchPayload (searchResponse G db query)" 300]
  by (auto simp: searchMiss_def storageReply_def Let_def split: prod.splits sum.splits)

lemma withCache_reply:
  "o_reply (withCache P r k f) =
     (case fst (cacheGet P r k) of
        Inr (Some v) \<Rightarrow> if truthy P v then Hit v else o_reply (f (snd (cacheGet P r k)))
      | _ \<Rightarrow> o_reply (f (snd (cacheGet P r k))))"
  using cacheGet_Inr [of P r k]
  by (auto simp: withCache_def split: prod.splits sum.splits option.splits)

lemma searchHandler_reply:
  "o_reply (searchHandler P G db r query) =
     (case fst (cacheGet P r (searchCacheKey P (objectEntries query))) of
        Inr (Some v) \<Rightarrow> if truthy P v then Hit v else storageReply G db query
      | _ \<Rightarrow> storageReply G db query)"
  by (simp add: searchHandler_def Let_def withCache_reply searchMiss_reply
      split: sum.splits option.splits)

text \<open>
  C1. \<open>cacheGet\<close> never returns an error: when the backend raises on the get, or the
  stored text does not parse, it returns null. \<open>cacheSet\<close> never returns an error.
  The reply of the search handler is the cached value or the reply computed from
  storage, whatever the backend does; when the backend raises on the get it is the
  reply computed from storage.
\<close>

theorem C1_cache_errors_absorbed:
  "(\<exists>v. fst (cacheGet P r k) = Inr v)
   \<and> (fst (redis_get r k) = Inl e \<longrightarrow> fst (cacheGet P r k) = Inr None)
   \<and> (fst (redis_get r k) = Inr (Some s) \<and> parse P s = Inl e' \<longrightarrow> fst (cacheGet P r k) = Inr None)
   \<and> fst (cacheSet P r k payload ttlSeconds) = Inr ()
   \<and> ((\<exists>v. o_reply (searchHandler P G db r query) = Hit v)
        \<or> o_reply (searchHandler P G db r query) = storageReply G db query)
   \<and> (fst (redis_get r (searchCacheKey P (objectEntries query))) = Inl e
        \<longrightarrow> o_reply (searchHandler P G db r query) = storageReply G db query)"
proof -
  have "(\<exists>v. o_reply (searchHandler P G db r query) = Hit v)
        \<or> o_reply (searchHandler P G db r query) = storageReply G db query"
    by (auto simp: searchHandler_reply split: sum.splits option.splits)
  moreover have "fst (redis_get r (searchCacheKey P (objectEntries query))) = Inl e
        \<longrightarrow> o_reply (searchHandler P G db r query) = storageReply G db query"
    by (auto simp: searchHandler_reply dest: cacheGet_backend_error [where P = P])
  ultimately show ?thesis
    using cacheGet_Inr [of P r k] cacheGet_backend_error [of r k e P]
      cacheGet_parse_error [of r k s P e'] cacheSet_Inr [of P r k payload ttlSeconds]
    by blast
qed

text \<open>
  A backend that raises on every command: the lookup is a miss, the store returns, and
  the search answers 200 with the response computed from storage. A stored text that
  does not parse is a miss as well.
\<close>

theorem C1_cache_errors_absorbed_witness:
  "fst (redis_get failingRedis (searchCacheKey examplePlatform (objectEntries exampleQuery)))
     = Inl RedisError
   \<and> fst (cacheGet examplePlatform failingRedis
        (searchCacheKey examplePlatform (objectEntries exampleQuery))) = Inr None
   \<and> fst (redis_get \<lparr>entries = [''k'' \<mapsto> (''{'', 300)], faults = []\<rparr> ''k'') = Inr (Some ''{'')
   \<and> parse examplePlatform ''{'' = Inl SyntaxError
   \<and> fst (cacheGet examplePlatform \<lparr>entries = [''k'' \<mapsto> (''{'', 300)], faults = []\<rparr> ''k'')
       = Inr None
   \<and> fst (cacheSet examplePlatform failingRedis ''k''
        (SearchPayload (searchResponse exampleEngine exampleDb exampleQuery)) 300) = Inr ()
   \<and> o_reply (searchHandler examplePlatform exampleEngine exampleDb failingRedis exampleQuery)
       = Miss (SearchPayload (searchResponse exampleEngine exampleDb exampleQuery))
   \<and> statusCode (o_reply
        (searchHandler examplePlatform exampleEngine exampleDb failingRedis exampleQuery)) = 200"
proof -
  let ?k = "searchCacheKey examplePlatform (objectEntries exampleQuery)"
  let ?broken = "\<lparr>entries = [''k'' \<mapsto> (''{'', 300)], faults = []\<rparr>"
  have raises: "fst (redis_get failingRedis ?k) = Inl RedisError"
    by (simp add: redis_get_def redis_tick_def failingRedis_def)
  have stored: "fst (redis_get ?broken ''k'') = Inr (Some ''{'')"
    by (simp add: redis_get_def redis_tick_def)
  have bad: "parse examplePlatform ''{'' = Inl SyntaxError"
    by (simp add: examplePlatform_def)
  have fresh: "storageReply exampleEngine exampleDb exampleQuery =
      (Miss (SearchPayload (searchResponse exampleEngine exampleDb exampleQuery))
         :: (unit, string) reply)"
    by (simp add: storageReply_def needsCoordinates_def exampleQuery_def exampleDb_def)
  note a = C1_cache_errors_absorbed [of examplePlatform failingRedis ?k RedisError
      "''{''" SyntaxError "SearchPayload (searchResponse exampleEngine exampleDb exampleQuery)"
      300 exampleEngine exampleDb exampleQuery]
  note b = C1_cache_errors_absorbed [of examplePlatform ?broken "''k''" RedisError
      "''{''" SyntaxError "SearchPayload (searchResponse exampleEngine exampleDb exampleQuery)"
      300 exampleEngine exampleDb exampleQuery]
  note c = C1_cache_errors_absorbed [of examplePlatform failingRedis "''k''" RedisError
      "''{''" SyntaxError "SearchPayload (searchResponse exampleEngine exampleDb exampleQuery)"
      300 exampleEngine exampleDb exampleQuery]
  have 1: "fst (cacheGet examplePlatform failingRedis ?k) = Inr None"
    using a raises by blast
  have 2: "fst (cacheGet examplePlatform ?broken ''k'') = Inr None"
    using b stored bad by blast
  have 3: "fst (cacheSet examplePlatform failingRedis ''k''
        (SearchPayload (searchResponse exampleEngine exampleDb exampleQuery)) 300) = Inr ()"
    using c by blast
  have 4: "o_reply (searchHandler examplePlatform exampleEngine exampleDb failingRedis exampleQuery)
       = Miss (SearchPayload (searchResponse exampleEngine exampleDb exampleQuery))"
    using a raises fresh by simp
  from raises stored bad 1 2 3 4 show ?thesis
    by simp
qed

section \<open>The active-only filter\<close>

lemma IsActive_buildConditions: "IsActive \<in> set (buildConditions query)"
  by (simp add: buildConditions_def)

lemma searchQueries_active:
  "list_all (\<lambda>ev. list_all (\<lambda>cs. IsActive \<in> set cs) (venueConditions ev)) (searchQueries G db query)"
  by (simp add: searchQueries_def IsActive_buildConditions)

lemma searchMiss_trace:
  "o_trace (searchMiss P G db r query key) =
     (if needsCoordinates query then []
      else if \<not> db_up db then searchQueries G db query
      else searchQueries G db query @ [CacheWrite key 300])"
  by (auto simp: searchMiss_def Let_def split: prod.splits sum.splits)

lemma withCache_trace:
  "o_trace (withCache P r k f) =
     CacheRead k #
     (case fst (cacheGet P r k) of
        Inr (Some v) \<Rightarrow> if truthy P v then [] else o_trace (f (snd (cacheGet P r k)))
      | Inr None \<Rightarrow> o_trace (f (snd (cacheGet P r k)))
      | Inl e \<Rightarrow> [])"
  by (auto simp: withCache_def split: prod.splits sum.splits option.splits)

lemma whereClause_active:
  "IsActive \<in> set cs \<Longrightarrow> whereClause G cs x \<Longrightarrow> r_isActive x"
  by (auto simp: whereClause_def list_all_iff)

lemma filter_active_where:
  "IsActive \<in> set cs \<Longrightarrow>
   filter (whereClause G cs) (filter r_isActive table) = filter (whereClause G cs) table"
  unfolding filter_filter
  by (rule filter_cong) (auto dest: whereClause_active)

text \<open>
  C3. The conditions the search builds always contain the active-only filter, whatever
  optional filters are present; every venue query the handler issues (the page query and
  the count query) carries it; every row of the page is active; and the page and the
  count are the same as on the table without its inactive venues.
\<close>

theorem C3_active_only:
  "IsActive \<in> set (buildConditions query)
   \<and> list_all (\<lambda>ev. list_all (\<lambda>cs. IsActive \<in> set cs) (venueConditions ev))
        (o_trace (searchHandler P G db r query))
   \<and> list_all r_isActive (searchResults G db query)
   \<and> searchResults G (db\<lparr>db_restaurants := filter r_isActive (db_restaurants db)\<rparr>) query
        = searchResults G db query
   \<and> searchTotal G (db\<lparr>db_restaurants := filter r_isActive (db_restaurants db)\<rparr>) query
        = searchTotal G db query"
proof -
  have 1: "IsActive \<in> set (buildConditions query)"
    by (rule IsActive_buildConditions)
  have 2: "list_all (\<lambda>ev. list_all (\<lambda>cs. IsActive \<in> set cs) (venueConditions ev))
        (o_trace (searchHandler P G db r query))"
    using searchQueries_active [of G db query]
    by (simp add: searchHandler_def Let_def withCache_trace searchMiss_trace
        split: sum.splits option.splits)
  have "set (searchResults G db query) \<subseteq>
        set (filter (whereClause G (buildConditions query)) (db_restaurants db))"
    unfolding searchResults_def selectPage_def
    by (metis set_take_subset set_drop_subset set_sort subset_trans)
  then have 3: "list_all r_isActive (searchResults G db query)"
    using whereClause_active [OF 1] by (auto simp: list_all_iff)
  have 4: "searchResults G (db\<lparr>db_restaurants := filter r_isActive (db_restaurants db)\<rparr>) query
        = searchResults G db query"
    by (simp add: searchResults_def selectPage_def filter_active_where [OF 1] del: filter_filter)
  have 5: "searchTotal G (db\<lparr>db_restaurants := filter r_isActive (db_restaurants db)\<rparr>) query
        = searchTotal G db query"
    by (simp add: searchTotal_def selectCount_def filter_active_where [OF 1] del: filter_filter)
  from 1 2 3 4 5 show ?thesis by blast
qed

text \<open>
  The example search: the inactive venue 3 matches the text and is left out of the page
  and of the count.
\<close>

theorem C3_active_only_witness:
  "buildConditions exampleQuery = [IsActive, TextMatch ''kebap'']
   \<and> IsActive \<in> set (buildConditions exampleQuery)
   \<and> list_all r_isActive (searchResults exampleEngine exampleDb exampleQuery)
   \<and> map r_id (searchResults exampleEngine exampleDb exampleQuery) = [2, 4, 1]
   \<and> whereClause exampleEngine [TextMatch ''kebap'']
         (venue 3 ''kebap evi'' ''kebap-evi'' (Some (30, 41)) None False 200)
   \<and> searchTotal exampleEngine exampleDb exampleQuery = 3"
proof -
  have "map r_id (searchResults exampleEngine exampleDb exampleQuery) = [2, 4, 1]"
    by (simp add: searchResults_def selectPage_def exampleDb_def exampleVenues_def venue_def
        exampleQuery_def buildConditions_def searchOrder_def whereClause_def exampleEngine_def
        desc_nulls_last_key_def)
  moreover have "searchTotal exampleEngine exampleDb exampleQuery = 3"
    by (simp add: searchTotal_def selectCount_def exampleDb_def exampleVenues_def venue_def
        exampleQuery_def buildConditions_def whereClause_def exampleEngine_def)
  moreover have "buildConditions exampleQuery = [IsActive, TextMatch ''kebap'']"
    by (simp add: buildConditions_def exampleQuery_def)
  moreover have "whereClause exampleEngine [TextMatch ''kebap'']
         (venue 3 ''kebap evi'' ''kebap-evi'' (Some (30, 41)) None False 200)"
    by (simp add: whereClause_def venue_def exampleEngine_def)
  ultimately show ?thesis
    using C3_active_only [of exampleQuery examplePlatform exampleEngine exampleDb emptyRedis]
    by simp
qed

section \<open>Validation and the order of the calls\<close>

lemma searchHandler_trace_needsCoordinates:
  "needsCoordinates query \<Longrightarrow>
   o_trace (searchHandler P G db r query) = [CacheRead (searchCacheKey P (objectEntries query))]"
  by (simp add: searchHandler_def Let_def withCache_trace searchMiss_trace
      split: sum.splits option.splits)

lemma redis_get_entries: "entries (snd (redis_get r k)) = entries r"
  by (auto simp: redis_get_def redis_tick_def split: list.splits bool.splits)

lemma cacheGet_entries: "entries (snd (cacheGet P r k)) = entries r"
  using redis_get_entries [of r k]
  by (auto simp: cacheGet_def cacheGet_try_def split: prod.splits sum.splits option.splits)

lemma withCache_redis:
  "o_redis (withCache P r k f) =
     (case fst (cacheGet P r k) of
        Inr (Some v) \<Rightarrow> if truthy P v then snd (cacheGet P r k) else o_redis (f (snd (cacheGet P r k)))
      | Inr None \<Rightarrow> o_redis (f (snd (cacheGet P r k)))
      | Inl e \<Rightarrow> snd (cacheGet P r k))"
  by (auto simp: withCache_def split: prod.splits sum.splits option.splits)

lemma searchHandler_entries_needsCoordinates:
  "needsCoordinates query \<Longrightarrow> entries (o_redis (searchHandler P G db r query)) = entries r"
  by (simp add: searchHandler_def Let_def withCache_redis searchMiss_def cacheGet_entries
      split: sum.splits option.splits)

lemma cacheGet_absent:
  "entries r k = None \<Longrightarrow> fst (cacheGet P r k) = Inr None"
  by (auto simp: cacheGet_def cacheGet_try_def redis_get_def redis_tick_def
      split: prod.splits sum.splits option.splits list.splits bool.splits)

lemma searchHandler_reply_absent:
  "entries r (searchCacheKey P (objectEntries query)) = None \<Longrightarrow>
   o_reply (searchHandler P G db r query) = storageReply G db query"
  by (simp add: searchHandler_reply cacheGet_absent)

lemma mem_issue: "x \<in> set (issue n v) \<longleftrightarrow> x = n \<and> v = None"
  by (cases v) (auto simp: issue_def)

lemma q_issue: "''q'' \<in> set (schemaIssues P raw) \<longleftrightarrow> z_q (raw_q raw) = None"
  by (simp add: schemaIssues_def mem_issue)

lemma issue_Nil: "issue n v = [] \<longleftrightarrow> v \<noteq> None"
  by (cases v) (auto simp: issue_def)

lemma z_q_Some: "z_q (Some s) = (if length s < 2 \<or> 100 < length s then None else Some s)"
  by (simp add: z_q_def)

text \<open>
  C7 (amended). A query string the schema refuses is answered with 400 before any cache
  or storage call. The check of \<open>sort_by = distance\<close> against the coordinates runs
  after the cache lookup: when it fails, the calls of the request are exactly one cache
  read, with no storage query and no cache write, and the reply is the 400 when the
  cache holds nothing under the key.
\<close>

theorem C7_validation_order:
  "(SearchQuerySchema P raw = Inl issues \<longrightarrow>
      o_trace (searchRoute P G db r raw) = []
      \<and> o_reply (searchRoute P G db r raw) = BadRequest (concat issues)
      \<and> o_redis (searchRoute P G db r raw) = r)
   \<and> (SearchQuerySchema P raw = Inr query \<and> needsCoordinates query \<longrightarrow>
      o_trace (searchRoute P G db r raw) = [CacheRead (searchCacheKey P (objectEntries query))]
      \<and> entries (o_redis (searchRoute P G db r raw)) = entries r
      \<and> (entries r (searchCacheKey P (objectEntries query)) = None \<longrightarrow>
           o_reply (searchRoute P G db r raw) = BadRequest distanceMessage))"
  by (auto simp: searchRoute_def searchHandler_trace_needsCoordinates
      searchHandler_entries_needsCoordinates searchHandler_reply_absent storageReply_def)

lemma schema_rawDistance: "SearchQuerySchema examplePlatform rawDistance = Inr distanceQuery"
  by (simp add: SearchQuerySchema_def schemaIssues_def rawDistance_def rawQuery_def issue_def
      z_q_def z_district_def z_cuisine_def z_price_range_def z_min_score_def z_sort_by_def
      z_page_def z_limit_def z_lat_def z_lng_def z_optional_def z_default_def
      distanceQuery_def exampleQuery_def)

text \<open>
  A refused query string (\<open>q\<close> of one character) issues no call; the query string
  \<open>?q=kebap&sort_by=distance\<close> passes the schema and issues one cache read.
\<close>

theorem C7_validation_order_witness:
  "SearchQuerySchema examplePlatform (rawQuery ''a'') = Inl [''q'']
   \<and> o_trace (searchRoute examplePlatform exampleEngine exampleDb emptyRedis (rawQuery ''a'')) = []
   \<and> o_reply (searchRoute examplePlatform exampleEngine exampleDb emptyRedis (rawQuery ''a''))
       = BadRequest ''q''
   \<and> SearchQuerySchema examplePlatform rawDistance = Inr distanceQuery
   \<and> needsCoordinates distanceQuery
   \<and> entries (o_redis (searchRoute examplePlatform exampleEngine exampleDb emptyRedis rawDistance))
       = entries emptyRedis"
proof -
  have s: "SearchQuerySchema examplePlatform (rawQuery ''a'') = Inl [''q'']"
    by (simp add: SearchQuerySchema_def schemaIssues_def rawQuery_def issue_def
      z_q_def z_district_def z_cuisine_def z_price_range_def z_min_score_def z_sort_by_def
      z_page_def z_limit_def z_lat_def z_lng_def z_optional_def z_default_def)
  have nc: "needsCoordinates distanceQuery"
    by (simp add: needsCoordinates_def distanceQuery_def exampleQuery_def)
  note a = C7_validation_order [of examplePlatform "rawQuery ''a''" "[''q'']" exampleEngine
      exampleDb emptyRedis distanceQuery]
  note b = C7_validation_order [of examplePlatform rawDistance "[''q'']" exampleEngine
      exampleDb emptyRedis distanceQuery]
  from a s have "o_trace (searchRoute examplePlatform exampleEngine exampleDb emptyRedis (rawQuery ''a'')) = []"
    and "o_reply (searchRoute examplePlatform exampleEngine exampleDb emptyRedis (rawQuery ''a''))
       = (BadRequest (concat [''q'']) :: (unit, string) reply)"
    by blast+
  moreover from b schema_rawDistance nc
  have "entries (o_redis (searchRoute examplePlatform exampleEngine exampleDb emptyRedis rawDistance))
       = entries emptyRedis"
    by blast
  ultimately show ?thesis
    using s nc schema_rawDistance by simp
qed

text \<open>
  Counterexample to C7 as first stated: the query string \<open>?q=kebap&sort_by=distance\<close> is answered
  with the 400 of the coordinate check after a cache read was issued.
\<close>

theorem C7_counterexample:
  "SearchQuerySchema examplePlatform rawDistance = Inr distanceQuery
   \<and> needsCoordinates distanceQuery
   \<and> o_reply (searchRoute examplePlatform exampleEngine exampleDb emptyRedis rawDistance)
       = BadRequest distanceMessage
   \<and> o_trace (searchRoute examplePlatform exampleEngine exampleDb emptyRedis rawDistance)
       = [CacheRead (searchCacheKey examplePlatform (objectEntries distanceQuery))]"
proof -
  have nc: "needsCoordinates distanceQuery"
    by (simp add: needsCoordinates_def distanceQuery_def exampleQuery_def)
  have "entries emptyRedis (searchCacheKey examplePlatform (objectEntries distanceQuery)) = None"
    by (simp add: emptyRedis_def)
  then show ?thesis
    using nc schema_rawDistance
    by (simp add: searchRoute_def searchHandler_trace_needsCoordinates
        searchHandler_reply_absent storageReply_def)
qed

text \<open>
  C8 (amended). The text query is checked as given, without trimming: it is refused
  exactly when its length is less than 2 or greater than 100, and an accepted query
  reaches the handler unchanged.
\<close>

theorem C8_query_length:
  "(z_q (Some s) = None) = (length s < 2 \<or> 100 < length s)
   \<and> (z_q (Some s) \<noteq> None \<longrightarrow> z_q (Some s) = Some s)
   \<and> ((\<exists>issues. SearchQuerySchema P (raw\<lparr>raw_q := Some s\<rparr>) = Inl issues \<and> ''q'' \<in> set issues)
        = (length s < 2 \<or> 100 < length s))
   \<and> (SearchQuerySchema P (raw\<lparr>raw_q := Some s\<rparr>) = Inr query \<longrightarrow> sq_q query = s)"
proof -
  have 1: "(z_q (Some s) = None) = (length s < 2 \<or> 100 < length s)"
    by (simp add: z_q_Some)
  have 2: "z_q (Some s) \<noteq> None \<longrightarrow> z_q (Some s) = Some s"
    by (simp add: z_q_Some)
  have 3: "(\<exists>issues. SearchQuerySchema P (raw\<lparr>raw_q := Some s\<rparr>) = Inl issues \<and> ''q'' \<in> set issues)
        = (length s < 2 \<or> 100 < length s)"
    using q_issue [of P "raw\<lparr>raw_q := Some s\<rparr>"]
    by (auto simp: SearchQuerySchema_def z_q_Some split: if_splits)
  have 4: "SearchQuerySchema P (raw\<lparr>raw_q := Some s\<rparr>) = Inr query \<longrightarrow> sq_q query = s"
  proof
    assume a: "SearchQuerySchema P (raw\<lparr>raw_q := Some s\<rparr>) = Inr query"
    then have none: "schemaIssues P (raw\<lparr>raw_q := Some s\<rparr>) = []"
      by (auto simp: SearchQuerySchema_def split: if_splits)
    then have "z_q (Some s) \<noteq> None"
      by (simp add: schemaIssues_def issue_Nil)
    with 2 have "z_q (Some s) = Some s" by simp
    with a none show "sq_q query = s"
      by (auto simp: SearchQuerySchema_def)
  qed
  from 1 2 3 4 show ?thesis by blast
qed

text \<open>One character is refused; five characters pass unchanged.\<close>

theorem C8_query_length_witness:
  "z_q (Some ''a'') = None
   \<and> z_q (Some ''kebap'') = Some ''kebap''
   \<and> SearchQuerySchema examplePlatform (rawQuery ''a'') = Inl (schemaIssues examplePlatform (rawQuery ''a''))
   \<and> ''q'' \<in> set (schemaIssues examplePlatform (rawQuery ''a''))
   \<and> SearchQuerySchema examplePlatform (rawQuery ''kebap'') = Inr exampleQuery
   \<and> sq_q exampleQuery = ''kebap''"
proof -
  have r1: "(rawQuery ''x'')\<lparr>raw_q := Some ''a''\<rparr> = rawQuery ''a''"
    and r2: "(rawQuery ''x'')\<lparr>raw_q := Some ''kebap''\<rparr> = rawQuery ''kebap''"
    by (simp_all add: rawQuery_def)
  have s: "SearchQuerySchema examplePlatform (rawQuery ''kebap'') = Inr exampleQuery"
    by (simp add: SearchQuerySchema_def schemaIssues_def rawQuery_def issue_def
      z_q_def z_district_def z_cuisine_def z_price_range_def z_min_score_def z_sort_by_def
      z_page_def z_limit_def z_lat_def z_lng_def z_optional_def z_default_def
      exampleQuery_def)
  note a = C8_query_length [of "''a''" examplePlatform "rawQuery ''x''" exampleQuery, unfolded r1]
  note b = C8_query_length [of "''kebap''" examplePlatform "rawQuery ''x''" exampleQuery, unfolded r2]
  from a have 1: "z_q (Some ''a'') = None"
    and "\<exists>issues. SearchQuerySchema examplePlatform (rawQuery ''a'') = Inl issues \<and> ''q'' \<in> set issues"
    by simp_all
  then have 2: "SearchQuerySchema examplePlatform (rawQuery ''a'') = Inl (schemaIssues examplePlatform (rawQuery ''a''))"
    and 3: "''q'' \<in> set (schemaIssues examplePlatform (rawQuery ''a''))"
    by (auto simp: SearchQuerySchema_def split: if_splits)
  from b have 4: "z_q (Some ''kebap'') = Some ''kebap''"
    by simp
  from b s have 5: "sq_q exampleQuery = ''kebap''"
    by blast
  from 1 2 3 4 5 s show ?thesis by simp
qed

text \<open>
  Counterexample to C8 as first stated: \<open>q\<close> of an \<open>a\<close> and a space has length 2 and trimmed
  length 1, passes the schema untrimmed and is answered with 200.
\<close>

theorem C8_counterexample:
  "length ''a '' = 2 \<and> length (trim ''a '') = 1
   \<and> SearchQuerySchema examplePlatform (rawQuery ''a '') = Inr (exampleQuery\<lparr>sq_q := ''a ''\<rparr>)
   \<and> statusCode (o_reply
        (searchRoute examplePlatform exampleEngine exampleDb emptyRedis (rawQuery ''a ''))) = 200"
proof -
  have s: "SearchQuerySchema examplePlatform (rawQuery ''a '') = Inr (exampleQuery\<lparr>sq_q := ''a ''\<rparr>)"
    by (simp add: SearchQuerySchema_def schemaIssues_def rawQuery_def issue_def
      z_q_def z_district_def z_cuisine_def z_price_range_def z_min_score_def z_sort_by_def
      z_page_def z_limit_def z_lat_def z_lng_def z_optional_def z_default_def
      exampleQuery_def)
  have t: "length (trim ''a '') = 1"
    by (simp add: trim_def isWhiteSpace_def)
  have e: "entries emptyRedis k = None" for k
    by (simp add: emptyRedis_def)
  have "o_reply (searchRoute examplePlatform exampleEngine exampleDb emptyRedis (rawQuery ''a ''))
      = (storageReply exampleEngine exampleDb (exampleQuery\<lparr>sq_q := ''a ''\<rparr>) :: (unit, string) reply)"
    by (simp add: searchRoute_def s searchHandler_reply_absent e)
  then show ?thesis
    using s t
    by (simp add: storageReply_def needsCoordinates_def exampleQuery_def exampleDb_def)
qed


section \<open>The order of the results\<close>

lemma sorted_key_page:
  "sorted (map f (take n (drop k (sort_key f xs))))"
proof -
  have "sorted_wrt (\<lambda>a b. f a \<le> f b) (sort_key f xs)"
    using sorted_sort_key [of f xs] by (simp add: sorted_map)
  then have "sorted_wrt (\<lambda>a b. f a \<le> f b) (take n (drop k (sort_key f xs)))"
    by (intro sorted_wrt_take sorted_wrt_drop)
  then show ?thesis by (simp add: sorted_map)
qed

lemma searchResults_subset:
  "set (searchResults G db query) \<subseteq>
     set (filter (whereClause G (buildConditions query)) (db_restaurants db))"
  unfolding searchResults_def selectPage_def
  by (metis set_take_subset set_drop_subset set_sort subset_trans)

lemma within_radius_has_distance:
  assumes "sq_lat query = Some lat" "sq_lng query = Some lng"
    and "x \<in> set (searchResults G db query)"
  shows "\<exists>d. distanceTo G (Some lng) (Some lat) x = Some d"
proof -
  from assms(1,2) have "DWithin lng lat 10000 \<in> set (buildConditions query)"
    by (simp add: buildConditions_def)
  moreover from assms(3) have "whereClause G (buildConditions query) x"
    using searchResults_subset by fastforce
  ultimately have "evalCondition G x (DWithin lng lat 10000)"
    by (auto simp: whereClause_def list_all_iff)
  then show ?thesis
    by (cases "r_location x") (simp_all add: distanceTo_def)
qed

text \<open>
  C6 (amended). A search sorted by distance returns its rows by distance from the origin
  ascending (every row has a distance, and the response carries it in kilometres); a
  search sorted by recency returns its rows by creation time descending. Neither order
  has a second key: rows with equal distance or equal creation time come in the order the
  storage gives them.
\<close>

theorem C6_ordering:
  "(sq_sort_by query = Distance \<and> sq_lat query = Some lat \<and> sq_lng query = Some lng \<longrightarrow>
      (\<exists>ds. map (distanceTo G (Some lng) (Some lat)) (searchResults G db query) = map Some ds
            \<and> sorted ds
            \<and> map si_distance (sr_data (searchResponse G db query)) = map (\<lambda>d. Some (d / 1000)) ds))
   \<and> (sq_sort_by query = Newest \<longrightarrow>
      sorted (rev (map r_createdAt (searchResults G db query))))
   \<and> map si_id (sr_data (searchResponse G db query)) = map r_id (searchResults G db query)"
proof -
  let ?res = "searchResults G db query"
  have 1: "\<exists>ds. map (distanceTo G (Some lng) (Some lat)) ?res = map Some ds \<and> sorted ds
            \<and> map si_distance (sr_data (searchResponse G db query)) = map (\<lambda>d. Some (d / 1000)) ds"
    if s: "sq_sort_by query = Distance" and la: "sq_lat query = Some lat"
      and ln: "sq_lng query = Some lng"
  proof -
    let ?f = "distanceTo G (Some lng) (Some lat)"
    let ?ds = "map (\<lambda>x. the (?f x)) ?res"
    have some: "\<forall>x\<in>set ?res. ?f x = Some (the (?f x))"
      using within_radius_has_distance [OF la ln] by fastforce
    then have m: "map ?f ?res = map Some ?ds"
      by (simp add: map_eq_conv)
    have "sorted (map (orderKey G (OrderDistanceAsc (Some lng) (Some lat))) ?res)"
      using s la ln unfolding searchResults_def selectPage_def searchOrder_def
      by (simp add: sorted_key_page)
    then have "sorted_wrt (\<lambda>a b. asc_key (?f a) \<le> asc_key (?f b)) ?res"
      by (simp add: sorted_map)
    then have "sorted_wrt (\<lambda>a b. the (?f a) \<le> the (?f b)) ?res"
    proof (rule sorted_wrt_mono_rel [rotated])
      fix a b assume "a \<in> set ?res" "b \<in> set ?res" "asc_key (?f a) \<le> asc_key (?f b)"
      with some show "the (?f a) \<le> the (?f b)"
        by (metis asc_key_def less_eq_prod_simp less_irrefl option.simps(5))
    qed
    then have sd: "sorted ?ds" by (simp add: sorted_map)
    have "distanceKm G query x = map_option (\<lambda>m. m / 1000) (?f x)" for x
      using la ln by (simp add: distanceKm_def)
    then have "map si_distance (sr_data (searchResponse G db query)) =
        map (\<lambda>x. map_option (\<lambda>m. m / 1000) (?f x)) ?res"
      by (simp add: searchResponse_def Let_def toSearchItem_def comp_def)
    also have "\<dots> = map (\<lambda>d. Some (d / 1000)) ?ds"
      using some by (simp add: map_eq_conv)
    finally show ?thesis using m sd by blast
  qed
  have 2: "sorted (rev (map r_createdAt ?res))" if s: "sq_sort_by query = Newest"
  proof -
    have "sorted (map (orderKey G OrderCreatedAtDesc) ?res)"
      using s unfolding searchResults_def selectPage_def searchOrder_def
      by (simp add: sorted_key_page)
    then have "sorted_wrt (\<lambda>a b. desc_key (Some (r_createdAt a)) \<le> desc_key (Some (r_createdAt b))) ?res"
      by (simp add: sorted_map)
    then have "sorted_wrt (\<lambda>a b. r_createdAt b \<le> r_createdAt a) ?res"
      by (rule sorted_wrt_mono_rel [rotated]) (simp add: desc_key_def less_eq_prod_def)
    then show ?thesis
      by (simp add: sorted_wrt_rev sorted_map rev_map)
  qed
  have 3: "map si_id (sr_data (searchResponse G db query)) = map r_id ?res"
    by (simp add: searchResponse_def Let_def toSearchItem_def comp_def)
  from 1 2 3 show ?thesis by blast
qed

lemma near_rows:
  "searchResults exampleEngine exampleDb nearQuery =
     [venue 1 ''kebapci ali'' ''kebapci-ali'' (Some (29, 41)) (Some 5) True 100,
      venue 2 ''kebapci veli'' ''kebapci-veli'' (Some (29, 41)) (Some 9) True 100,
      venue 4 ''kebap dunyasi'' ''kebap-dunyasi'' (Some (29, 42)) (Some 7) True 300]"
  by (simp add: searchResults_def selectPage_def exampleDb_def exampleVenues_def venue_def
      nearQuery_def exampleQuery_def buildConditions_def searchOrder_def whereClause_def
      exampleEngine_def asc_key_def distanceTo_def)

lemma newest_rows:
  "searchResults exampleEngine exampleDb newestQuery =
     [venue 4 ''kebap dunyasi'' ''kebap-dunyasi'' (Some (29, 42)) (Some 7) True 300,
      venue 1 ''kebapci ali'' ''kebapci-ali'' (Some (29, 41)) (Some 5) True 100,
      venue 2 ''kebapci veli'' ''kebapci-veli'' (Some (29, 41)) (Some 9) True 100]"
  by (simp add: searchResults_def selectPage_def exampleDb_def exampleVenues_def venue_def
      newestQuery_def exampleQuery_def buildConditions_def searchOrder_def whereClause_def
      exampleEngine_def desc_key_def)

text \<open>
  The example venues from the origin (29, 41): distances 0, 0 and 1, ascending; by
  recency: creation times 300, 100 and 100, descending.
\<close>

theorem C6_ordering_witness:
  "sq_sort_by nearQuery = Distance \<and> sq_lat nearQuery = Some 41 \<and> sq_lng nearQuery = Some 29
   \<and> map (distanceTo exampleEngine (Some 29) (Some 41))
        (searchResults exampleEngine exampleDb nearQuery) = [Some 0, Some 0, Some 1]
   \<and> (\<exists>ds. map (distanceTo exampleEngine (Some 29) (Some 41))
              (searchResults exampleEngine exampleDb nearQuery) = map Some ds \<and> sorted ds)
   \<and> sq_sort_by newestQuery = Newest
   \<and> map r_createdAt (searchResults exampleEngine exampleDb newestQuery) = [300, 100, 100]
   \<and> sorted (rev (map r_createdAt (searchResults exampleEngine exampleDb newestQuery)))"
proof -
  have q1: "sq_sort_by nearQuery = Distance \<and> sq_lat nearQuery = Some 41 \<and> sq_lng nearQuery = Some 29"
    by (simp add: nearQuery_def exampleQuery_def)
  have q2: "sq_sort_by newestQuery = Newest"
    by (simp add: newestQuery_def exampleQuery_def)
  have d: "map (distanceTo exampleEngine (Some 29) (Some 41))
        (searchResults exampleEngine exampleDb nearQuery) = [Some 0, Some 0, Some 1]"
    unfolding near_rows by (simp add: venue_def distanceTo_def exampleEngine_def)
  have c: "map r_createdAt (searchResults exampleEngine exampleDb newestQuery) = [300, 100, 100]"
    unfolding newest_rows by (simp add: venue_def)
  from C6_ordering [of nearQuery 41 29 exampleEngine exampleDb] q1
  have "\<exists>ds. map (distanceTo exampleEngine (Some 29) (Some 41))
              (searchResults exampleEngine exampleDb nearQuery) = map Some ds \<and> sorted ds"
    by blast
  moreover from C6_ordering [of newestQuery 41 29 exampleEngine exampleDb] q2
  have "sorted (rev (map r_createdAt (searchResults exampleEngine exampleDb newestQuery)))"
    by blast
  ultimately show ?thesis
    using q1 q2 d c by blast
qed

text \<open>
  Counterexample to C6 as first stated: venues 1 and 2 are at the same distance and were created at
  the same time; in both orders venue 1 (score 5) comes before venue 2 (score 9).
\<close>

theorem C6_counterexample:
  "map (\<lambda>x. (r_id x, distanceTo exampleEngine (Some 29) (Some 41) x, r_overallScore x))
      (searchResults exampleEngine exampleDb nearQuery)
     = [(1, Some 0, Some 5), (2, Some 0, Some 9), (4, Some 1, Some 7)]
   \<and> map (\<lambda>x. (r_id x, r_createdAt x, r_overallScore x))
      (searchResults exampleEngine exampleDb newestQuery)
     = [(4, 300, Some 7), (1, 100, Some 5), (2, 100, Some 9)]"
  unfolding near_rows newest_rows
  by (simp add: venue_def distanceTo_def exampleEngine_def)

section \<open>The detail route: proofs\<close>






























section \<open>The autocomplete route: proofs\<close>
























section \<open>The cache key: proofs\<close>

lemma fieldName_inj: "fieldName a = fieldName b \<Longrightarrow> a = b"
  by (cases a; cases b) simp_all

lemma fieldName_no_comma: "CHR '','' \<notin> set (fieldName f)"
  by (cases f) simp_all

lemma append_delim_eq:
  "d \<notin> set a \<Longrightarrow> d \<notin> set b \<Longrightarrow> a @ d # x = b @ d # y \<Longrightarrow> a = b \<and> x = y"
proof (induction a arbitrary: b)
  case Nil
  then show ?case by (cases b) auto
next
  case (Cons c cs)
  then show ?case by (cases b) auto
qed

lemma entryString_inj_on:
  assumes "distinct (map fst es)"
  shows "inj_on (entryString P) (set es)"
proof (rule inj_onI)
  fix e e' assume e: "e \<in> set es" and e': "e' \<in> set es"
    and eq: "entryString P e = entryString P e'"
  from eq have "fieldName (fst e) @ CHR '','' # valueString P (snd e) =
      fieldName (fst e') @ CHR '','' # valueString P (snd e')"
    by (simp add: entryString_def)
  then have "fieldName (fst e) = fieldName (fst e')"
    using append_delim_eq [OF fieldName_no_comma fieldName_no_comma] by fast
  then have "fst e = fst e'" by (rule fieldName_inj)
  moreover from assms have "inj_on fst (set es)"
    by (simp add: distinct_map)
  ultimately show "e = e'"
    using e e' by (rule_tac inj_onD [where f = fst])
qed

lemma sortEntries_perm:
  assumes d1: "distinct (map fst es1)" and d2: "distinct (map fst es2)"
    and s: "set es1 = set es2"
  shows "sortEntries P es1 = sortEntries P es2"
proof -
  from d1 d2 have "distinct es1" "distinct es2"
    by (simp_all add: distinct_map)
  with s have m: "mset es1 = mset es2"
    by (simp add: set_eq_iff_mset_eq_distinct)
  then have "mset es1 = mset (sort_key (entryString P) es2)" by simp
  moreover have "inj_on (entryString P) (set es1)"
    using d1 by (rule entryString_inj_on)
  moreover have "sorted (map (entryString P) (sort_key (entryString P) es2))" by simp
  ultimately show ?thesis
    unfolding sortEntries_def by (rule sort_key_inj_key_eq)
qed

lemma objectSet_fresh: "fst e \<notin> fst ` set obj \<Longrightarrow> objectSet obj e = obj @ [e]"
  by (simp add: objectSet_def)

lemma foldl_objectSet_distinct:
  "distinct (map fst (acc @ es)) \<Longrightarrow> foldl objectSet acc es = acc @ es"
proof (induction es arbitrary: acc)
  case Nil
  then show ?case by simp
next
  case (Cons e es)
  then have "fst e \<notin> fst ` set acc" by auto
  then have "objectSet acc e = acc @ [e]" by (rule objectSet_fresh)
  moreover have "distinct (map fst ((acc @ [e]) @ es))" using Cons.prems by simp
  ultimately show ?case using Cons.IH [of "acc @ [e]"] by simp
qed

lemma fromEntries_distinct: "distinct (map fst es) \<Longrightarrow> fromEntries es = es"
  using foldl_objectSet_distinct [of "[]" es] by (simp add: fromEntries_def)

lemma distinct_sortEntries:
  "distinct (map fst es) \<Longrightarrow> distinct (map fst (sortEntries P es))"
proof -
  assume d: "distinct (map fst es)"
  have "mset (map fst (sortEntries P es)) = mset (map fst es)"
    by (simp add: sortEntries_def)
  from mset_eq_imp_distinct_iff [OF this] d show ?thesis by simp
qed

lemma canonicalQuery_distinct:
  "distinct (map fst es) \<Longrightarrow> canonicalQuery P es = jsonObject P (sortEntries P es)"
  by (simp add: canonicalQuery_def fromEntries_distinct distinct_sortEntries)

subsection \<open>The JSON text determines the entries\<close>

lemma hexDigit_code:
  "n < 16 \<Longrightarrow> (of_char (hexDigit n) :: nat) = (if n < 10 then 48 + n else 87 + n)"
  by (simp add: hexDigit_def)

lemma hexDigit_inj: "m < 16 \<Longrightarrow> n < 16 \<Longrightarrow> hexDigit m = hexDigit n \<Longrightarrow> m = n"
proof -
  assume m: "m < 16" and n: "n < 16" and eq: "hexDigit m = hexDigit n"
  from eq have "(of_char (hexDigit m) :: nat) = of_char (hexDigit n)" by simp
  with m n show ?thesis
    by (simp add: hexDigit_code split: if_splits)
qed

lemma control_hex_inj:
  assumes "(of_char c :: nat) < 32" "(of_char c' :: nat) < 32"
    and "hexDigit (of_char c div 16) = hexDigit (of_char c' div 16)"
    and "hexDigit (of_char c mod 16) = hexDigit (of_char c' mod 16)"
  shows "c = c'"
proof -
  let ?a = "of_char c :: nat" and ?b = "of_char c' :: nat"
  from assms(1,2) have "?a div 16 < 16" "?b div 16 < 16" by simp_all
  with assms(3) have d: "?a div 16 = ?b div 16" by (rule_tac hexDigit_inj)
  have "?a mod 16 < 16" "?b mod 16 < 16" by simp_all
  with assms(4) have m: "?a mod 16 = ?b mod 16" by (rule_tac hexDigit_inj)
  from d m have "?a = ?b" by (metis div_mult_mod_eq)
  then show ?thesis by simp
qed

lemma escapeChar_hd: "\<exists>x xs. escapeChar c = x # xs \<and> x \<noteq> CHR 0x22"
  by (simp add: escapeChar_def)

lemma escapeChar_prefix_free:
  "escapeChar c @ R = escapeChar c' @ R' \<Longrightarrow> c = c' \<and> R = R'"
  by (auto simp: escapeChar_def split: if_splits intro: control_hex_inj)

lemma escaped_body_inj:
  "concat (map escapeChar a) @ CHR 0x22 # x = concat (map escapeChar b) @ CHR 0x22 # y
   \<Longrightarrow> a = b \<and> x = y"
proof (induction a arbitrary: b)
  case Nil
  show ?case
  proof (cases b)
    case Nil
    with Nil.prems show ?thesis by simp
  next
    case (Cons c cs)
    obtain h t where "escapeChar c = h # t" "h \<noteq> CHR 0x22"
      using escapeChar_hd by blast
    with Nil.prems Cons show ?thesis by simp
  qed
next
  case (Cons c cs)
  show ?case
  proof (cases b)
    case Nil
    obtain h t where "escapeChar c = h # t" "h \<noteq> CHR 0x22"
      using escapeChar_hd by blast
    with Cons.prems Nil show ?thesis by simp
  next
    case (Cons c' cs')
    with Cons.prems have "escapeChar c @ (concat (map escapeChar cs) @ CHR 0x22 # x) =
        escapeChar c' @ (concat (map escapeChar cs') @ CHR 0x22 # y)"
      by simp
    then have "c = c'" and
      "concat (map escapeChar cs) @ CHR 0x22 # x = concat (map escapeChar cs') @ CHR 0x22 # y"
      by (auto dest: escapeChar_prefix_free)
    with Cons.IH [of cs'] Cons show ?thesis by simp
  qed
qed

lemma jsonQuote_inj: "jsonQuote a @ x = jsonQuote b @ y \<Longrightarrow> a = b \<and> x = y"
  using escaped_body_inj [of a x b y] by (simp add: jsonQuote_def)

lemma jsonQuote_hd: "\<exists>t. jsonQuote a = CHR 0x22 # t"
  by (simp add: jsonQuote_def)

text \<open>A text that starts with a comma or a closing brace.\<close>

lemma plain_split:
  assumes "plainText a" "plainText b"
    and "a @ d # x = b @ d' # y"
    and "d = CHR '','' \<or> d = CHR ''}''" "d' = CHR '','' \<or> d' = CHR ''}''"
  shows "a = b \<and> d # x = d' # y"
  using assms
proof (induction a arbitrary: b)
  case Nil
  then show ?case by (cases b) (auto simp: plainText_def)
next
  case (Cons c cs)
  show ?case
  proof (cases b)
    case Nil
    with Cons.prems show ?thesis by (auto simp: plainText_def)
  next
    case (Cons c' cs')
    with Cons.prems have "plainText cs" "plainText cs'" "cs @ d # x = cs' @ d' # y" "c = c'"
      by (auto simp: plainText_def)
    with Cons.IH [of cs'] Cons.prems(4,5) Cons show ?thesis by simp
  qed
qed

lemma plain_not_quote:
  assumes "plainText a" "d = CHR '','' \<or> d = CHR ''}''"
  shows "a @ d # x \<noteq> CHR 0x22 # t"
  using assms by (cases a) (auto simp: plainText_def)

lemma jsonValue_inj:
  assumes ok: "\<And>n. v = JNum n \<Longrightarrow> plainText (numberToString P n)"
    and ok': "\<And>n. v' = JNum n \<Longrightarrow> plainText (numberToString P n)"
    and inj: "\<And>n m. v = JNum n \<Longrightarrow> v' = JNum m \<Longrightarrow>
                numberToString P n = numberToString P m \<Longrightarrow> n = m"
    and eq: "jsonValue P v @ d # x = jsonValue P v' @ d' # y"
    and d: "d = CHR '','' \<or> d = CHR ''}''" and d': "d' = CHR '','' \<or> d' = CHR ''}''"
  shows "v = v' \<and> d # x = d' # y"
proof (cases v)
  case (JStr s)
  show ?thesis
  proof (cases v')
    case (JStr s')
    with \<open>v = JStr s\<close> eq show ?thesis
      by (auto dest: jsonQuote_inj)
  next
    case (JNum m)
    obtain t where "jsonQuote s = CHR 0x22 # t" using jsonQuote_hd by blast
    with JNum \<open>v = JStr s\<close> eq have "numberToString P m @ d' # y = CHR 0x22 # (t @ d # x)"
      by simp
    with plain_not_quote [OF ok' [OF JNum] d'] show ?thesis by blast
  qed
next
  case (JNum n)
  show ?thesis
  proof (cases v')
    case (JStr s')
    obtain t where "jsonQuote s' = CHR 0x22 # t" using jsonQuote_hd by blast
    with JStr \<open>v = JNum n\<close> eq have "numberToString P n @ d # x = CHR 0x22 # (t @ d' # y)"
      by simp
    with plain_not_quote [OF ok [OF \<open>v = JNum n\<close>] d] show ?thesis by blast
  next
    case (JNum m)
    with \<open>v = JNum n\<close> eq have "numberToString P n @ d # x = numberToString P m @ d' # y"
      by simp
    from plain_split [OF ok [OF \<open>v = JNum n\<close>] ok' [OF JNum] this d d']
    have "numberToString P n = numberToString P m" and "d # x = d' # y" by simp_all
    with inj [OF \<open>v = JNum n\<close> JNum] JNum \<open>v = JNum n\<close> show ?thesis by simp
  qed
qed

lemma numbersOf_mem: "e \<in> set es \<Longrightarrow> snd e = JNum n \<Longrightarrow> n \<in> set (numbersOf es)"
  by (force simp: numbersOf_def)

lemma numbersOf_Cons_subset: "set (numbersOf es) \<subseteq> set (numbersOf (e # es))"
  by (auto simp: numbersOf_def)

lemma jsonMember_inj:
  assumes plain: "\<forall>n\<in>N. plainText (numberToString P n)"
    and inj: "inj_on (numberToString P) N"
    and e: "\<And>n. snd e = JNum n \<Longrightarrow> n \<in> N" and e': "\<And>n. snd e' = JNum n \<Longrightarrow> n \<in> N"
    and eq: "jsonMember P e @ d # x = jsonMember P e' @ d' # y"
    and d: "d = CHR '','' \<or> d = CHR ''}''" and d': "d' = CHR '','' \<or> d' = CHR ''}''"
  shows "e = e' \<and> d # x = d' # y"
proof -
  from eq have "jsonQuote (fieldName (fst e)) @ (CHR '':'' # jsonValue P (snd e) @ d # x) =
      jsonQuote (fieldName (fst e')) @ (CHR '':'' # jsonValue P (snd e') @ d' # y)"
    by (simp add: jsonMember_def)
  then have n: "fieldName (fst e) = fieldName (fst e')"
    and v: "jsonValue P (snd e) @ d # x = jsonValue P (snd e') @ d' # y"
    by (auto dest: jsonQuote_inj)
  from n have f: "fst e = fst e'" by (rule fieldName_inj)
  have "snd e = snd e' \<and> d # x = d' # y"
  proof (rule jsonValue_inj [OF _ _ _ v d d'])
    fix n assume "snd e = JNum n"
    with e plain show "plainText (numberToString P n)" by blast
  next
    fix n assume "snd e' = JNum n"
    with e' plain show "plainText (numberToString P n)" by blast
  next
    fix n m assume "snd e = JNum n" "snd e' = JNum m" "numberToString P n = numberToString P m"
    with e e' inj show "n = m" by (auto dest: inj_onD)
  qed
  with f show ?thesis by (simp add: prod_eq_iff)
qed

lemma jsonMembers_Cons:
  "jsonMembers P (e # es) =
     jsonMember P e @ (if es = [] then [] else CHR '','' # jsonMembers P es)"
  by (cases es) simp_all

lemma jsonMember_hd: "\<exists>t. jsonMember P e = CHR 0x22 # t"
  by (simp add: jsonMember_def jsonQuote_def)

lemma jsonMembers_inj:
  assumes plain: "\<forall>n\<in>N. plainText (numberToString P n)"
    and inj: "inj_on (numberToString P) N"
  shows "set (numbersOf xs) \<subseteq> N \<Longrightarrow> set (numbersOf ys) \<subseteq> N \<Longrightarrow>
     jsonMembers P xs @ CHR ''}'' # x = jsonMembers P ys @ CHR ''}'' # y \<Longrightarrow> xs = ys"
proof (induction xs arbitrary: ys)
  case Nil
  show ?case
  proof (cases ys)
    case Nil
    then show ?thesis by simp
  next
    case (Cons e' es')
    obtain t where "jsonMember P e' = CHR 0x22 # t" using jsonMember_hd by blast
    with Nil.prems Cons show ?thesis by (simp add: jsonMembers_Cons)
  qed
next
  case (Cons e es)
  show ?case
  proof (cases ys)
    case Nil
    obtain t where "jsonMember P e = CHR 0x22 # t" using jsonMember_hd by blast
    with Cons.prems Nil show ?thesis by (simp add: jsonMembers_Cons)
  next
    case ys: (Cons e' es')
    let ?T = "\<lambda>zs z. if zs = [] then CHR ''}'' # z else CHR '','' # (jsonMembers P zs @ CHR ''}'' # z)"
    have tl: "\<exists>c r. ?T zs z = c # r \<and> (c = CHR '','' \<or> c = CHR ''}'')" for zs z
      by simp
    from Cons.prems(3) ys have eq: "jsonMember P e @ ?T es x = jsonMember P e' @ ?T es' y"
      by (cases "es = []"; cases "es' = []") (simp_all add: jsonMembers_Cons)
    obtain c r where T1: "?T es x = c # r" and c: "c = CHR '','' \<or> c = CHR ''}''"
      using tl by blast
    obtain c' r' where T2: "?T es' y = c' # r'" and c': "c' = CHR '','' \<or> c' = CHR ''}''"
      using tl by blast
    have en: "\<And>n. snd e = JNum n \<Longrightarrow> n \<in> N"
      using Cons.prems(1) numbersOf_mem [of e "e # es"] by auto
    have en': "\<And>n. snd e' = JNum n \<Longrightarrow> n \<in> N"
      using Cons.prems(2) ys numbersOf_mem [of e' "e' # es'"] by auto
    from eq have "jsonMember P e @ c # r = jsonMember P e' @ c' # r'"
      unfolding T1 T2 .
    from jsonMember_inj [OF plain inj en en' this c c']
    have ee: "e = e'" and "c # r = c' # r'" by simp_all
    then have TT: "?T es x = ?T es' y" using T1 T2 by simp
    have "es = es'"
    proof (cases "es = []")
      case True
      with TT show ?thesis by (cases "es' = []") simp_all
    next
      case False
      with TT have ne: "es' \<noteq> []" by (cases "es' = []") simp_all
      with False TT have "jsonMembers P es @ CHR ''}'' # x = jsonMembers P es' @ CHR ''}'' # y"
        by simp
      moreover have "set (numbersOf es) \<subseteq> N"
        using Cons.prems(1) numbersOf_Cons_subset by blast
      moreover have "set (numbersOf es') \<subseteq> N"
        using Cons.prems(2) ys numbersOf_Cons_subset by blast
      ultimately show ?thesis by (rule_tac Cons.IH)
    qed
    with ee ys show ?thesis by simp
  qed
qed

lemma set_numbersOf: "set (numbersOf es) = {n. \<exists>e\<in>set es. snd e = JNum n}"
  by (force simp: numbersOf_def split: jsval.splits)

lemma canonicalQuery_inj:
  assumes d1: "distinct (map fst es1)" and d2: "distinct (map fst es2)"
    and ok: "numbersPrintWell P (numbersOf es1 @ numbersOf es2)"
    and eq: "canonicalQuery P es1 = canonicalQuery P es2"
  shows "set es1 = set es2"
proof -
  let ?N = "set (numbersOf es1 @ numbersOf es2)"
  from ok have plain: "\<forall>n\<in>?N. plainText (numberToString P n)"
    by (simp add: numbersPrintWell_def list_all_iff)
  from ok have inj: "inj_on (numberToString P) ?N"
    unfolding numbersPrintWell_def list_all_iff inj_on_def by blast
  have s1: "set (numbersOf (sortEntries P es1)) \<subseteq> ?N"
    by (auto simp: set_numbersOf sortEntries_def)
  have s2: "set (numbersOf (sortEntries P es2)) \<subseteq> ?N"
    by (auto simp: set_numbersOf sortEntries_def)
  from eq d1 d2 have "jsonMembers P (sortEntries P es1) @ CHR ''}'' # [] =
      jsonMembers P (sortEntries P es2) @ CHR ''}'' # []"
    by (simp add: canonicalQuery_distinct jsonObject_def)
  from jsonMembers_inj [OF plain inj s1 s2 this]
  have "set (sortEntries P es1) = set (sortEntries P es2)" by simp
  then show ?thesis by (simp add: sortEntries_def)
qed

lemma distinct_objectEntries: "distinct (map fst (objectEntries query))"
  by (simp add: objectEntries_def entryOpt_def split: option.splits)

lemma example_numbers:
  "exampleNumberToString 1 = ''1''" "exampleNumberToString 2 = ''2''"
  "exampleNumberToString 20 = ''20''"
  by (simp_all add: exampleNumberToString_def decimal.simps digitChar_def)

section \<open>The states of the cache: proofs\<close>

lemma redis_tick_entries: "entries (snd (redis_tick r)) = entries r"
  by (simp add: redis_tick_def split: list.splits)

lemma redis_set_entries:
  "redis_set r k v t = (res, r') \<Longrightarrow> entries r' k' \<noteq> None \<Longrightarrow>
     k' = k \<or> entries r k' \<noteq> None"
  using redis_tick_entries [of r]
  by (auto simp: redis_set_def split: prod.splits bool.splits if_splits)

lemma cacheSet_entries:
  "cacheSet P r k d t = (res, r') \<Longrightarrow> entries r' k' \<noteq> None \<Longrightarrow>
     k' = k \<or> entries r k' \<noteq> None"
  by (auto simp: cacheSet_def cacheSet_try_def split: prod.splits sum.splits
      dest: redis_set_entries)

lemma searchMiss_entries:
  "entries (o_redis (searchMiss P G db r query k)) k' \<noteq> None \<Longrightarrow>
     (k' = k \<and> \<not> needsCoordinates query) \<or> entries r k' \<noteq> None"
  by (auto simp: searchMiss_def Let_def split: if_splits prod.splits sum.splits
      dest: cacheSet_entries)

lemma restaurantMiss_entries:
  "entries (o_redis (restaurantMiss P G db r slug k)) k' \<noteq> None \<Longrightarrow>
     k' = k \<or> entries r k' \<noteq> None"
  by (auto simp: restaurantMiss_def Let_def split: if_splits prod.splits sum.splits list.splits
      dest: cacheSet_entries)

lemma autocompleteMiss_entries:
  "entries (o_redis (autocompleteMiss P G db r q k)) k' \<noteq> None \<Longrightarrow>
     k' = k \<or> entries r k' \<noteq> None"
  by (auto simp: autocompleteMiss_def Let_def split: if_splits prod.splits sum.splits
      dest: cacheSet_entries)

lemma withCache_entries:
  assumes "entries (o_redis (withCache P r k f)) k' \<noteq> None"
  shows "entries r k' \<noteq> None \<or> entries (o_redis (f (snd (cacheGet P r k)))) k' \<noteq> None"
  using assms cacheGet_entries [of P r k]
  by (auto simp: withCache_redis split: sum.splits option.splits if_splits)

lemma reachable_keys:
  "reachable P r \<Longrightarrow> entries r k \<noteq> None \<Longrightarrow> keyOrigin P k"
proof (induction arbitrary: k rule: reachable.induct)
  case (reach_empty r)
  then show ?case by simp
next
  case (reach_search r G db query)
  from withCache_entries [OF reach_search.prems [unfolded searchHandler_def Let_def]]
  show ?case
  proof
    assume "entries r k \<noteq> None"
    then show ?thesis by (rule reach_search.IH)
  next
    assume "entries (o_redis (searchMiss P G db
        (snd (cacheGet P r (searchCacheKey P (objectEntries query)))) query
        (searchCacheKey P (objectEntries query)))) k \<noteq> None"
    from searchMiss_entries [OF this] show ?thesis
      using reach_search.IH [of k] by (auto simp: keyOrigin_def cacheGet_entries)
  qed
next
  case (reach_restaurant r G db slug)
  from withCache_entries [OF reach_restaurant.prems [unfolded restaurantHandler_def Let_def]]
  show ?case
  proof
    assume "entries r k \<noteq> None"
    then show ?thesis by (rule reach_restaurant.IH)
  next
    assume "entries (o_redis (restaurantMiss P G db
        (snd (cacheGet P r (restaurantCacheKey slug))) slug (restaurantCacheKey slug))) k \<noteq> None"
    from restaurantMiss_entries [OF this] show ?thesis
      using reach_restaurant.IH [of k] by (auto simp: keyOrigin_def cacheGet_entries)
  qed
next
  case (reach_autocomplete r G db q)
  from withCache_entries [OF reach_autocomplete.prems [unfolded autocompleteHandler_def Let_def]]
  show ?case
  proof
    assume "entries r k \<noteq> None"
    then show ?thesis by (rule reach_autocomplete.IH)
  next
    assume "entries (o_redis (autocompleteMiss P G db
        (snd (cacheGet P r (autocompleteCacheKey P (trim q)))) (trim q)
        (autocompleteCacheKey P (trim q)))) k \<noteq> None"
    from autocompleteMiss_entries [OF this] show ?thesis
      using reach_autocomplete.IH [of k] by (auto simp: keyOrigin_def cacheGet_entries)
  qed
next
  case (reach_forget r k')
  then show ?case by (auto split: if_splits)
next
  case (reach_faults r fs)
  then show ?case by simp
qed

lemma reachable_no_entry:
  assumes "reachable P r" and "needsCoordinates query" and "noCollision P query"
  shows "entries r (searchCacheKey P (objectEntries query)) = None"
proof (rule ccontr)
  assume "entries r (searchCacheKey P (objectEntries query)) \<noteq> None"
  with assms(1) have "keyOrigin P (searchCacheKey P (objectEntries query))"
    by (rule reachable_keys)
  then show False
    using assms(3)
    by (auto simp: keyOrigin_def noCollision_def searchCacheKey_def restaurantCacheKey_def
        autocompleteCacheKey_def)
qed


section \<open>The example runtime without collisions\<close>

lemma digit_cases:
  "(n::nat) < 10 \<Longrightarrow> n = 0 \<or> n = 1 \<or> n = 2 \<or> n = 3 \<or> n = 4 \<or> n = 5 \<or> n = 6 \<or> n = 7 \<or> n = 8 \<or> n = 9"
  by arith

lemma digitChar_isDigit: "isDigit (digitChar n)"
  using digit_cases [of "n mod 10"] by (auto simp: digitChar_def isDigit_def)

lemma digitChar_inj: "m < 10 \<Longrightarrow> n < 10 \<Longrightarrow> digitChar m = digitChar n \<Longrightarrow> m = n"
  using digit_cases [of m] digit_cases [of n] by (auto simp: digitChar_def)

lemma decimal_small: "n < 10 \<Longrightarrow> decimal n = [digitChar n]"
  by (simp add: decimal.simps)

lemma decimal_large: "\<not> n < 10 \<Longrightarrow> decimal n = decimal (n div 10) @ [digitChar (n mod 10)]"
  by (subst decimal.simps) simp

lemma decimal_nonempty: "decimal n \<noteq> []"
  by (cases "n < 10") (simp_all add: decimal_small decimal_large)

lemma decimal_digits: "list_all isDigit (decimal n)"
proof (induction n rule: decimal.induct)
  case (1 n)
  then show ?case
    by (cases "n < 10") (simp_all add: decimal_small decimal_large digitChar_isDigit)
qed

lemma decimal_inj: "decimal m = decimal n \<Longrightarrow> m = n"
proof (induction m arbitrary: n rule: decimal.induct)
  case (1 m)
  show ?case
  proof (cases "m < 10")
    case small: True
    show ?thesis
    proof (cases "n < 10")
      case True
      with small "1.prems" show ?thesis
        by (simp add: decimal_small digitChar_inj)
    next
      case False
      with small "1.prems" decimal_nonempty [of "n div 10"] show ?thesis
        by (simp add: decimal_small decimal_large)
    qed
  next
    case large: False
    show ?thesis
    proof (cases "n < 10")
      case True
      with large "1.prems" decimal_nonempty [of "m div 10"] show ?thesis
        by (simp add: decimal_small decimal_large)
    next
      case False
      with large "1.prems" have "decimal (m div 10) = decimal (n div 10)"
        and "digitChar (m mod 10) = digitChar (n mod 10)"
        by (simp_all add: decimal_large)
      with "1.IH" [OF large] have "m div 10 = n div 10" and "m mod 10 = n mod 10"
        by (auto dest: digitChar_inj [rotated 2])
      then show ?thesis by (metis div_mult_mod_eq)
    qed
  qed
qed

lemma digit_not_special:
  "isDigit c \<Longrightarrow> c \<noteq> CHR ''/'' \<and> c \<noteq> CHR ''-'' \<and> c \<noteq> CHR '','' \<and> c \<noteq> CHR ''}'' \<and> c \<noteq> CHR 0x22"
  by (auto simp: isDigit_def less_eq_char_def)

lemma decimal_no: 
  "CHR ''/'' \<notin> set (decimal n)" "CHR ''-'' \<notin> set (decimal n)" "plainText (decimal n)"
  using decimal_digits [of n] digit_not_special
  by (auto simp: list_all_iff plainText_def)

lemma fractionText_plain: "plainText (fractionText n)"
  using decimal_no(3) by (simp add: fractionText_def plainText_def)

lemma fractionText_inj: "fractionText m = fractionText n \<Longrightarrow> m = n"
proof -
  assume eq: "fractionText m = fractionText n"
  obtain a b where m: "quotient_of m = (a, b)" by (cases "quotient_of m")
  obtain c d where n: "quotient_of n = (c, d)" by (cases "quotient_of n")
  from m n have b: "b > 0" and d: "d > 0"
    by (auto dest: quotient_of_denom_pos)
  let ?body = "\<lambda>x y. decimal (nat \<bar>x\<bar>) @ CHR ''/'' # decimal (nat y)"
  obtain h t where h: "decimal (nat \<bar>a\<bar>) = h # t" "h \<noteq> CHR ''-''"
    using decimal_nonempty [of "nat \<bar>a\<bar>"] decimal_no(2) [of "nat \<bar>a\<bar>"]
    by (cases "decimal (nat \<bar>a\<bar>)") auto
  obtain h' t' where h': "decimal (nat \<bar>c\<bar>) = h' # t'" "h' \<noteq> CHR ''-''"
    using decimal_nonempty [of "nat \<bar>c\<bar>"] decimal_no(2) [of "nat \<bar>c\<bar>"]
    by (cases "decimal (nat \<bar>c\<bar>)") auto
  from eq m n h h' have sign: "(a < 0) = (c < 0)" and body: "?body a b = ?body c d"
    by (auto simp: fractionText_def split: if_splits)
  from append_delim_eq [OF decimal_no(1) decimal_no(1) body]
  have "decimal (nat \<bar>a\<bar>) = decimal (nat \<bar>c\<bar>)" and "decimal (nat b) = decimal (nat d)"
    by simp_all
  then have "nat \<bar>a\<bar> = nat \<bar>c\<bar>" and "nat b = nat d"
    by (auto dest: decimal_inj)
  with sign b d have "a = c" and "b = d" by auto
  with m n show ?thesis by (simp add: quotient_of_inject)
qed

lemma plainPlatform_numbers: "numbersPrintWell plainPlatform ns"
  by (auto simp: numbersPrintWell_def list_all_iff plainPlatform_def fractionText_plain
      dest: fractionText_inj)

lemma sortByName_inj: "sortByName a = sortByName b \<Longrightarrow> a = b"
  by (cases a; cases b) simp_all

lemma entries_sort_by:
  "(F_sort_by, v) \<in> set (objectEntries q) \<longleftrightarrow> v = JStr (sortByName (sq_sort_by q))"
  by (auto simp: objectEntries_def entryOpt_def split: option.splits)

lemma entries_lat: "(\<exists>v. (F_lat, v) \<in> set (objectEntries q)) \<longleftrightarrow> sq_lat q \<noteq> None"
  by (cases "sq_lat q") (auto simp: objectEntries_def entryOpt_def split: option.splits)

lemma entries_lng: "(\<exists>v. (F_lng, v) \<in> set (objectEntries q)) \<longleftrightarrow> sq_lng q \<noteq> None"
  by (cases "sq_lng q") (auto simp: objectEntries_def entryOpt_def split: option.splits)

lemma same_entries_needsCoordinates:
  assumes "set (objectEntries a) = set (objectEntries b)"
  shows "needsCoordinates a = needsCoordinates b"
proof -
  have "(F_sort_by, JStr (sortByName (sq_sort_by a))) \<in> set (objectEntries b)"
    using assms entries_sort_by [of _ a] by blast
  then have "sq_sort_by a = sq_sort_by b"
    by (simp add: entries_sort_by sortByName_inj)
  moreover have "(sq_lat a \<noteq> None) = (sq_lat b \<noteq> None)"
    using assms entries_lat [of a] entries_lat [of b] by simp
  moreover have "(sq_lng a \<noteq> None) = (sq_lng b \<noteq> None)"
    using assms entries_lng [of a] entries_lng [of b] by simp
  ultimately show ?thesis by (auto simp: needsCoordinates_def)
qed

lemma plainPlatform_noCollision:
  "needsCoordinates query \<Longrightarrow> noCollision plainPlatform query"
  unfolding noCollision_def
proof (intro allI impI notI)
  fix other
  assume nc: "needsCoordinates query" and o: "\<not> needsCoordinates other"
    and eq: "searchCacheKey plainPlatform (objectEntries other) =
             searchCacheKey plainPlatform (objectEntries query)"
  from eq have "canonicalQuery plainPlatform (objectEntries other) =
      canonicalQuery plainPlatform (objectEntries query)"
    by (simp add: searchCacheKey_def plainPlatform_def)
  from canonicalQuery_inj [OF distinct_objectEntries distinct_objectEntries
      plainPlatform_numbers this]
  have "set (objectEntries other) = set (objectEntries query)" .
  from same_entries_needsCoordinates [OF this] nc o show False by simp
qed


section \<open>Distance sort without coordinates\<close>

lemma distanceMessage_names:
  "sublist ''lat'' distanceMessage \<and> sublist ''lng'' distanceMessage"
proof -
  have "distanceMessage = ''Mesafeye gore siralama icin '' @ ''lat'' @ '' ve lng parametreleri gereklidir.''"
    and "distanceMessage = ''Mesafeye gore siralama icin lat ve '' @ ''lng'' @ '' parametreleri gereklidir.''"
    by (simp_all add: distanceMessage_def)
  then show ?thesis by (metis sublist_appendI)
qed

text \<open>
  C4. A validated request with \<open>sort_by = distance\<close> and the latitude or the longitude
  absent is answered with the 400 whose message names \<open>lat\<close> and \<open>lng\<close>, in every
  state of the cache the routes can produce and barring a collision of the digest with
  a request that passes the check; the calls of the request are one cache read, so no
  storage query is executed and nothing is written, and no response in another order is
  computed.
\<close>

theorem C4_distance_needs_coordinates:
  assumes "sq_sort_by query = Distance" and "sq_lat query = None \<or> sq_lng query = None"
    and "reachable P r" and "noCollision P query"
  shows "o_reply (searchHandler P G db r query) = BadRequest distanceMessage
   \<and> statusCode (o_reply (searchHandler P G db r query)) = 400
   \<and> sublist ''lat'' distanceMessage \<and> sublist ''lng'' distanceMessage
   \<and> o_trace (searchHandler P G db r query) = [CacheRead (searchCacheKey P (objectEntries query))]
   \<and> list_all (\<lambda>ev. \<not> isStorage ev) (o_trace (searchHandler P G db r query))
   \<and> entries (o_redis (searchHandler P G db r query)) = entries r
   \<and> (SearchQuerySchema P raw = Inr query \<longrightarrow>
        o_reply (searchRoute P G db r raw) = BadRequest distanceMessage)"
proof -
  from assms(1,2) have nc: "needsCoordinates query"
    by (simp add: needsCoordinates_def)
  from reachable_no_entry [OF assms(3) nc assms(4)]
  have "o_reply (searchHandler P G db r query) = storageReply G db query"
    by (rule searchHandler_reply_absent)
  with nc have 1: "o_reply (searchHandler P G db r query) = BadRequest distanceMessage"
    by (simp add: storageReply_def)
  have 2: "o_trace (searchHandler P G db r query) = [CacheRead (searchCacheKey P (objectEntries query))]"
    using nc by (rule searchHandler_trace_needsCoordinates)
  have 3: "entries (o_redis (searchHandler P G db r query)) = entries r"
    using nc by (rule searchHandler_entries_needsCoordinates)
  from 1 2 3 distanceMessage_names show ?thesis
    by (simp add: searchRoute_def)
qed

text \<open>
  After the example search has filled the cache, the request
  \<open>?q=kebap&sort_by=distance\<close> is answered with the 400.
\<close>

theorem C4_distance_needs_coordinates_witness:
  "sq_sort_by distanceQuery = Distance \<and> sq_lat distanceQuery = None
   \<and> reachable plainPlatform warmRedis
   \<and> noCollision plainPlatform distanceQuery
   \<and> entries warmRedis (searchCacheKey plainPlatform (objectEntries exampleQuery)) = Some (''payload'', 300)
   \<and> o_reply (searchHandler plainPlatform exampleEngine exampleDb warmRedis distanceQuery)
       = BadRequest distanceMessage
   \<and> statusCode (o_reply (searchHandler plainPlatform exampleEngine exampleDb warmRedis distanceQuery))
       = 400
   \<and> o_trace (searchHandler plainPlatform exampleEngine exampleDb warmRedis distanceQuery)
       = [CacheRead (searchCacheKey plainPlatform (objectEntries distanceQuery))]"
proof -
  have s: "sq_sort_by distanceQuery = Distance" and l: "sq_lat distanceQuery = None"
    by (simp_all add: distanceQuery_def exampleQuery_def)
  then have nc: "needsCoordinates distanceQuery"
    by (simp add: needsCoordinates_def)
  have "reachable plainPlatform emptyRedis"
    by (rule reach_empty) (simp add: emptyRedis_def)
  then have re: "reachable plainPlatform warmRedis"
    unfolding warmRedis_def by (rule reach_search)
  have no: "noCollision plainPlatform distanceQuery"
    using nc by (rule plainPlatform_noCollision)
  have w: "entries warmRedis (searchCacheKey plainPlatform (objectEntries exampleQuery))
      = Some (''payload'', 300)"
    by (simp add: warmRedis_def searchHandler_def Let_def withCache_def cacheGet_def
        cacheGet_try_def redis_get_def redis_tick_def emptyRedis_def searchMiss_def
        needsCoordinates_def exampleQuery_def exampleDb_def cacheSet_def cacheSet_try_def
        redis_set_def plainPlatform_def examplePlatform_def)
  from l have l': "sq_lat distanceQuery = None \<or> sq_lng distanceQuery = None" by simp
  note c = C4_distance_needs_coordinates [OF s l' re no, of exampleEngine exampleDb rawDistance]
  from c have 1: "o_reply (searchHandler plainPlatform exampleEngine exampleDb warmRedis distanceQuery)
       = BadRequest distanceMessage"
    and 2: "statusCode (o_reply (searchHandler plainPlatform exampleEngine exampleDb warmRedis distanceQuery))
       = 400"
    and 3: "o_trace (searchHandler plainPlatform exampleEngine exampleDb warmRedis distanceQuery)
       = [CacheRead (searchCacheKey plainPlatform (objectEntries distanceQuery))]"
    by simp_all
  show ?thesis
    by (intro conjI) (fact s l re no w 1 2 3)+
qed


section \<open>The best dishes on the returned page\<close>








section \<open>The cache key of a request\<close>

lemma entries_of_field:
  "(F_q, v) \<in> set (objectEntries q) \<longleftrightarrow> v = JStr (sq_q q)"
  "(F_district, v) \<in> set (objectEntries q) \<longleftrightarrow> (\<exists>s. sq_district q = Some s \<and> v = JStr s)"
  "(F_cuisine, v) \<in> set (objectEntries q) \<longleftrightarrow> (\<exists>s. sq_cuisine q = Some s \<and> v = JStr s)"
  "(F_price_range, v) \<in> set (objectEntries q) \<longleftrightarrow>
     (\<exists>n. sq_price_range q = Some n \<and> v = JNum (of_int n))"
  "(F_min_score, v) \<in> set (objectEntries q) \<longleftrightarrow> (\<exists>n. sq_min_score q = Some n \<and> v = JNum n)"
  "(F_page, v) \<in> set (objectEntries q) \<longleftrightarrow> v = JNum (of_int (sq_page q))"
  "(F_limit, v) \<in> set (objectEntries q) \<longleftrightarrow> v = JNum (of_int (sq_limit q))"
  "(F_lat, v) \<in> set (objectEntries q) \<longleftrightarrow> (\<exists>n. sq_lat q = Some n \<and> v = JNum n)"
  "(F_lng, v) \<in> set (objectEntries q) \<longleftrightarrow> (\<exists>n. sq_lng q = Some n \<and> v = JNum n)"
  by (auto simp: objectEntries_def entryOpt_def split: option.splits)

lemma optional_entry_eq:
  assumes "\<And>v. (\<exists>s. x = Some s \<and> v = f s) \<longleftrightarrow> (\<exists>s. y = Some s \<and> v = f s)"
    and "inj f"
  shows "x = y"
proof (cases x)
  case None
  with assms(1) show ?thesis by (cases y) auto
next
  case (Some a)
  with assms(1) [of "f a"] obtain s where "y = Some s" "f a = f s" by auto
  with Some assms(2) show ?thesis by (auto dest: injD)
qed

lemma objectEntries_inj:
  assumes "set (objectEntries a) = set (objectEntries b)"
  shows "a = b"
proof -
  have m: "(f, v) \<in> set (objectEntries a) \<longleftrightarrow> (f, v) \<in> set (objectEntries b)" for f v
    using assms by simp
  have "sq_q a = sq_q b"
    using m [of F_q "JStr (sq_q a)"] by (simp add: entries_of_field)
  moreover have "sq_district a = sq_district b"
    by (rule optional_entry_eq [of _ JStr]) (use m [of F_district] in \<open>simp_all add: entries_of_field inj_def\<close>)
  moreover have "sq_cuisine a = sq_cuisine b"
    by (rule optional_entry_eq [of _ JStr]) (use m [of F_cuisine] in \<open>simp_all add: entries_of_field inj_def\<close>)
  moreover have "sq_price_range a = sq_price_range b"
    by (rule optional_entry_eq [of _ "\<lambda>n. JNum (of_int n)"])
      (use m [of F_price_range] in \<open>simp_all add: entries_of_field inj_def\<close>)
  moreover have "sq_min_score a = sq_min_score b"
    by (rule optional_entry_eq [of _ JNum]) (use m [of F_min_score] in \<open>simp_all add: entries_of_field inj_def\<close>)
  moreover have "sq_sort_by a = sq_sort_by b"
    using m [of F_sort_by "JStr (sortByName (sq_sort_by a))"]
    by (simp add: entries_sort_by sortByName_inj)
  moreover have "sq_page a = sq_page b"
    using m [of F_page "JNum (of_int (sq_page a))"] by (simp add: entries_of_field)
  moreover have "sq_limit a = sq_limit b"
    using m [of F_limit "JNum (of_int (sq_limit a))"] by (simp add: entries_of_field)
  moreover have "sq_lat a = sq_lat b"
    by (rule optional_entry_eq [of _ JNum]) (use m [of F_lat] in \<open>simp_all add: entries_of_field inj_def\<close>)
  moreover have "sq_lng a = sq_lng b"
    by (rule optional_entry_eq [of _ JNum]) (use m [of F_lng] in \<open>simp_all add: entries_of_field inj_def\<close>)
  ultimately show ?thesis
    by (cases a; cases b) simp
qed

lemma searchHandler_reads_key:
  "\<exists>rest. o_trace (searchHandler P G db r query) =
     CacheRead (searchCacheKey P (objectEntries query)) # rest"
  by (simp add: searchHandler_def Let_def withCache_trace)

lemma example_text:
  "sortEntries examplePlatform (objectEntries exampleQuery) =
     [(F_limit, JNum 20), (F_page, JNum 1), (F_q, JStr ''kebap''), (F_sort_by, JStr ''score'')]"
  by (simp add: sortEntries_def objectEntries_def entryOpt_def exampleQuery_def entryString_def
      examplePlatform_def example_numbers)


text \<open>
  C2. The entries of a validated query, supplied in any order, give the key of the
  query, which is the key the handler reads the cache with; the key is the prefix and the
  digest, 39 characters for a digest of 32. The entries determine the query, so two
  different validated queries, their entries in any order, have different canonical
  texts (numbers printing as plain, distinct texts), and their keys differ unless the
  digest of the two different texts collides.
\<close>

theorem C2_cache_key:
  assumes "distinct (map fst es)" and "set es = set (objectEntries query)"
  shows "searchCacheKey P es = searchCacheKey P (objectEntries query)
   \<and> (\<exists>rest. o_trace (searchHandler P G db r query) = CacheRead (searchCacheKey P es) # rest)
   \<and> ((\<forall>s. length (md5hex P s) = 32) \<longrightarrow> length (searchCacheKey P es) = 39)
   \<and> (distinct (map fst es') \<and> set es' = set (objectEntries query') \<and> query' \<noteq> query
        \<and> numbersPrintWell P (numbersOf es @ numbersOf es') \<longrightarrow>
        canonicalQuery P es' \<noteq> canonicalQuery P es
        \<and> (md5hex P (canonicalQuery P es') \<noteq> md5hex P (canonicalQuery P es) \<longrightarrow>
             searchCacheKey P es' \<noteq> searchCacheKey P es))"
proof -
  have 1: "searchCacheKey P es = searchCacheKey P (objectEntries query)"
    using assms distinct_objectEntries [of query]
    by (simp add: searchCacheKey_def canonicalQuery_def
        sortEntries_perm [of es "objectEntries query" P])
  have 2: "\<exists>rest. o_trace (searchHandler P G db r query) = CacheRead (searchCacheKey P es) # rest"
    unfolding 1 by (rule searchHandler_reads_key)
  have 3: "(\<forall>s. length (md5hex P s) = 32) \<longrightarrow> length (searchCacheKey P es) = 39"
    by (simp add: searchCacheKey_def)
  have 4: "canonicalQuery P es' \<noteq> canonicalQuery P es
        \<and> (md5hex P (canonicalQuery P es') \<noteq> md5hex P (canonicalQuery P es) \<longrightarrow>
             searchCacheKey P es' \<noteq> searchCacheKey P es)"
    if d: "distinct (map fst es')" and s: "set es' = set (objectEntries query')"
      and ne: "query' \<noteq> query" and ok: "numbersPrintWell P (numbersOf es @ numbersOf es')"
  proof -
    have "canonicalQuery P es' \<noteq> canonicalQuery P es"
    proof
      assume "canonicalQuery P es' = canonicalQuery P es"
      then have "canonicalQuery P es = canonicalQuery P es'" by simp
      from canonicalQuery_inj [OF assms(1) d ok this] assms(2) s
      have "set (objectEntries query) = set (objectEntries query')" by simp
      then have "query = query'" by (rule objectEntries_inj)
      with ne show False by simp
    qed
    then show ?thesis by (simp add: searchCacheKey_def)
  qed
  from 1 2 3 4 show ?thesis by blast
qed

lemma example_canonical:
  "canonicalQuery examplePlatform (objectEntries exampleQuery) =
     [CHR ''{'', CHR 0x22] @ ''limit'' @ [CHR 0x22] @ '':20,'' @
     [CHR 0x22] @ ''page'' @ [CHR 0x22] @ '':1,'' @
     [CHR 0x22] @ ''q'' @ [CHR 0x22, CHR '':'', CHR 0x22] @ ''kebap'' @ [CHR 0x22, CHR '',''] @
     [CHR 0x22] @ ''sort_by'' @ [CHR 0x22, CHR '':'', CHR 0x22] @ ''score'' @ [CHR 0x22, CHR ''}'']"
proof -
  have n: "numberToString examplePlatform 20 = ''20''" "numberToString examplePlatform 1 = ''1''"
    by (simp_all add: examplePlatform_def example_numbers)
  show ?thesis
    by (simp add: canonicalQuery_distinct distinct_objectEntries example_text jsonObject_def
        jsonMember_def jsonQuote_def escapeChar_def n)
qed

text \<open>
  The entries of \<open>?q=kebap\<close> in another order have the key of the query, of 39
  characters, and the canonical text is the JSON object of the entries in the order of
  their names. The second page has another canonical text, and another key on the
  runtime whose digest is the text itself.
\<close>

theorem C2_cache_key_witness:
  "distinct (map fst entriesB) \<and> set entriesB = set (objectEntries exampleQuery)
   \<and> entriesB \<noteq> objectEntries exampleQuery
   \<and> searchCacheKey examplePlatform entriesB =
       searchCacheKey examplePlatform (objectEntries exampleQuery)
   \<and> canonicalQuery examplePlatform (objectEntries exampleQuery) =
       [CHR ''{'', CHR 0x22] @ ''limit'' @ [CHR 0x22] @ '':20,'' @
       [CHR 0x22] @ ''page'' @ [CHR 0x22] @ '':1,'' @
       [CHR 0x22] @ ''q'' @ [CHR 0x22, CHR '':'', CHR 0x22] @ ''kebap'' @ [CHR 0x22, CHR '',''] @
       [CHR 0x22] @ ''sort_by'' @ [CHR 0x22, CHR '':'', CHR 0x22] @ ''score'' @ [CHR 0x22, CHR ''}'']
   \<and> (\<forall>s. length (md5hex examplePlatform s) = 32)
   \<and> length (searchCacheKey examplePlatform entriesB) = 39
   \<and> distinct (map fst entriesC) \<and> set entriesC = set (objectEntries pageTwoQuery)
   \<and> pageTwoQuery \<noteq> exampleQuery
   \<and> numbersPrintWell examplePlatform (numbersOf entriesB @ numbersOf entriesC)
   \<and> canonicalQuery examplePlatform entriesC \<noteq> canonicalQuery examplePlatform entriesB
   \<and> numbersPrintWell plainPlatform (numbersOf entriesB @ numbersOf entriesC)
   \<and> searchCacheKey plainPlatform entriesC \<noteq> searchCacheKey plainPlatform entriesB"
proof -
  have dB: "distinct (map fst entriesB)" and dC: "distinct (map fst entriesC)"
    by (simp_all add: entriesB_def entriesC_def)
  have sB: "set entriesB = set (objectEntries exampleQuery)"
    and nB: "entriesB \<noteq> objectEntries exampleQuery"
    by (simp_all add: entriesB_def objectEntries_def entryOpt_def exampleQuery_def insert_commute)
  have sC: "set entriesC = set (objectEntries pageTwoQuery)"
    by (simp add: entriesC_def objectEntries_def entryOpt_def pageTwoQuery_def exampleQuery_def
        insert_commute)
  have ne: "pageTwoQuery \<noteq> exampleQuery"
  proof
    assume "pageTwoQuery = exampleQuery"
    then have "sq_page pageTwoQuery = sq_page exampleQuery" by simp
    then show False by (simp add: pageTwoQuery_def exampleQuery_def)
  qed
  have len: "\<forall>s. length (md5hex examplePlatform s) = 32"
    by (simp add: examplePlatform_def min_def)
  have num: "numbersPrintWell examplePlatform (numbersOf entriesB @ numbersOf entriesC)"
    by (simp add: numbersPrintWell_def numbersOf_def entriesB_def entriesC_def plainText_def
        examplePlatform_def example_numbers)
  have num': "numbersPrintWell plainPlatform (numbersOf entriesB @ numbersOf entriesC)"
    by (rule plainPlatform_numbers)
  note a = C2_cache_key [OF dB sB, of examplePlatform exampleEngine exampleDb emptyRedis
      entriesC pageTwoQuery]
  note b = C2_cache_key [OF dB sB, of plainPlatform exampleEngine exampleDb emptyRedis
      entriesC pageTwoQuery]
  from a have 1: "searchCacheKey examplePlatform entriesB =
       searchCacheKey examplePlatform (objectEntries exampleQuery)"
    by blast
  from a len have 2: "length (searchCacheKey examplePlatform entriesB) = 39"
    by blast
  from a dC sC ne num
  have 3: "canonicalQuery examplePlatform entriesC \<noteq> canonicalQuery examplePlatform entriesB"
    by blast
  from b dC sC ne num'
  have c: "canonicalQuery plainPlatform entriesC \<noteq> canonicalQuery plainPlatform entriesB"
    by blast
  then have "md5hex plainPlatform (canonicalQuery plainPlatform entriesC) \<noteq>
      md5hex plainPlatform (canonicalQuery plainPlatform entriesB)"
    by (simp add: plainPlatform_def)
  with b dC sC ne num'
  have 4: "searchCacheKey plainPlatform entriesC \<noteq> searchCacheKey plainPlatform entriesB"
    by blast
  show ?thesis
    by (intro conjI) (fact dB sB nB 1 example_canonical len 2 dC sC ne num 3 num' 4)+
qed

end
